theory Spec2Isabelle
  imports Complex_Main "HOL-Library.Word"
begin

section \<open>JavaScript strings\<close>

text \<open>
  A JavaScript string is a sequence of 16-bit code units.  String literals of the source
  (all of them ASCII) are written \<open>utf16 ''...''\<close>.
\<close>

type_synonym jsstring = "16 word list"

definition utf16 :: "string \<Rightarrow> jsstring" where
  "utf16 s = map (\<lambda>c. word_of_nat (of_char c)) s"

text \<open>
  \<open>String.prototype.trim\<close> removes leading and trailing WhiteSpace and LineTerminator
  code points (ECMAScript, TrimString): TAB, VT, FF, SP, NBSP, ZWNBSP, the Unicode
  space separators, and LF, CR, LS, PS.
\<close>

definition isWhiteSpace :: "16 word \<Rightarrow> bool" where
  "isWhiteSpace c \<longleftrightarrow>
     c \<in> set [0x0009, 0x000B, 0x000C, 0x0020, 0x00A0, 0xFEFF, 0x1680,
               0x2000, 0x2001, 0x2002, 0x2003, 0x2004, 0x2005, 0x2006, 0x2007,
               0x2008, 0x2009, 0x200A, 0x202F, 0x205F, 0x3000,
               0x000A, 0x000D, 0x2028, 0x2029]"

definition trim :: "jsstring \<Rightarrow> jsstring" where
  "trim s = rev (dropWhile isWhiteSpace (rev (dropWhile isWhiteSpace s)))"

section \<open>JavaScript numbers\<close>

text \<open>
  A Number is an IEEE 754 binary64 value.  The finite non-zero values and \<open>+0\<close> are
  \<open>Fin q\<close> with \<open>q\<close> the exact rational value, \<open>-0\<close> is \<open>NegZero\<close>.  Arithmetic is
  exact rational arithmetic followed by the rounding \<open>number_of\<close> below, so every result
  of an operation is a binary64 value (lemmas \<open>number_of_is_double\<close>,
  \<open>Number_add_binary64\<close>); \<open>is_double\<close> says which rationals are.
\<close>

datatype number = NaN | PosInf | NegInf | NegZero | Fin rat

definition pow2 :: "int \<Rightarrow> rat" where
  "pow2 e = (if 0 \<le> e then 2 ^ nat e else 1 / 2 ^ nat (- e))"

definition pow10 :: "int \<Rightarrow> rat" where
  "pow10 e = (if 0 \<le> e then 10 ^ nat e else 1 / 10 ^ nat (- e))"

text \<open>The number of binary digits of a natural number.\<close>

fun bitlen :: "nat \<Rightarrow> nat" where
  "bitlen n = (if n = 0 then 0 else Suc (bitlen (n div 2)))"

declare bitlen.simps [simp del]

text \<open>\<open>ilog2 q\<close> is the exponent \<open>e\<close> with \<open>2 ^ e \<le> q < 2 ^ (e + 1)\<close>, for \<open>0 < q\<close>.\<close>

definition ilog2 :: "rat \<Rightarrow> int" where
  "ilog2 q = (if 1 \<le> q then int (bitlen (nat \<lfloor>q\<rfloor>)) - 1
              else - int (bitlen (nat (\<lceil>1 / q\<rceil> - 1))))"

definition round_half_even :: "rat \<Rightarrow> int" where
  "round_half_even q =
     (let f = \<lfloor>q\<rfloor>; d = q - of_int f
      in if d < 1 / 2 then f
         else if 1 / 2 < d then f + 1
         else if even f then f else f + 1)"

text \<open>
  The unit in the last place of the binade of \<open>a > 0\<close>: 53 significant bits, and the
  spacing \<open>2 ^ -1074\<close> of the subnormal numbers below \<open>2 ^ -1022\<close>.
\<close>

definition ulp :: "rat \<Rightarrow> rat" where
  "ulp a = pow2 (max (ilog2 a) (- 1022) - 52)"

text \<open>
  The Number value for a mathematical value (ECMAScript 6.1.6.1): the nearest binary64
  value, ties to the even significand, \<open>2 ^ 1024\<close> replaced by infinity, and a zero
  result negative exactly when \<open>x < 0\<close>.
\<close>

definition number_of :: "rat \<Rightarrow> number" where
  "number_of x =
     (if x = 0 then Fin 0
      else
        let a = \<bar>x\<bar>;
            n = round_half_even (a / ulp a);
            r = of_int n * ulp a
        in if pow2 1024 \<le> r then (if x < 0 then NegInf else PosInf)
           else if n = 0 then (if x < 0 then NegZero else Fin 0)
           else Fin (if x < 0 then - r else r))"

definition is_double :: "rat \<Rightarrow> bool" where
  "is_double q \<longleftrightarrow>
     q = 0 \<or> (\<bar>q\<bar> < pow2 1024 \<and> \<lfloor>\<bar>q\<bar> / ulp \<bar>q\<bar>\<rfloor> = \<lceil>\<bar>q\<bar> / ulp \<bar>q\<bar>\<rceil>)"

text \<open>
  The values of the type that are Numbers of JavaScript: everything that is not finite,
  and \<open>Fin q\<close> for a binary64 value \<open>q\<close>.
\<close>

definition is_binary64 :: "number \<Rightarrow> bool" where
  "is_binary64 x = (case x of Fin q \<Rightarrow> is_double q | _ \<Rightarrow> True)"

text \<open>The mathematical value of a finite Number.\<close>

definition mathematical_value :: "number \<Rightarrow> rat" where
  "mathematical_value x = (case x of Fin q \<Rightarrow> q | _ \<Rightarrow> 0)"

definition is_finite :: "number \<Rightarrow> bool" where
  "is_finite x = (case x of Fin q \<Rightarrow> True | NegZero \<Rightarrow> True | _ \<Rightarrow> False)"

text \<open>
  \<open>Number::add\<close> (ECMAScript 6.1.6.1.7), the \<open>+\<close> of the source when both operands are
  Numbers.
\<close>

definition Number_add :: "number \<Rightarrow> number \<Rightarrow> number" where
  "Number_add x y =
     (if x = NaN \<or> y = NaN then NaN
      else if x = PosInf \<and> y = NegInf then NaN
      else if x = NegInf \<and> y = PosInf then NaN
      else if x = PosInf \<or> x = NegInf then x
      else if y = PosInf \<or> y = NegInf then y
      else if x = NegZero \<and> y = NegZero then NegZero
      else number_of (mathematical_value x + mathematical_value y))"

section \<open>Numbers to strings\<close>

definition digit_char :: "nat \<Rightarrow> 16 word" where
  "digit_char d = word_of_nat (48 + d)"

text \<open>The digits of the decimal representation of a natural number.\<close>

fun decimal :: "nat \<Rightarrow> jsstring" where
  "decimal n = (if n < 10 then [digit_char n]
                else decimal (n div 10) @ [digit_char (n mod 10)])"

declare decimal.simps [simp del]

text \<open>\<open>ilog10 q\<close> is the exponent \<open>e\<close> with \<open>10 ^ e \<le> q < 10 ^ (e + 1)\<close>, for \<open>0 < q\<close>.\<close>

definition ilog10 :: "rat \<Rightarrow> int" where
  "ilog10 q = (if 1 \<le> q then int (length (decimal (nat \<lfloor>q\<rfloor>))) - 1
               else - int (length (decimal (nat (\<lceil>1 / q\<rceil> - 1)))))"

text \<open>
  \<open>Number::toString\<close> (ECMAScript 6.1.6.1.20, radix 10) needs integers \<open>n\<close>, \<open>k\<close>, \<open>s\<close>
  with \<open>10 ^ (k - 1) \<le> s < 10 ^ k\<close>, the Number value of \<open>s * 10 ^ (n - k)\<close> equal to
  \<open>x\<close>, and \<open>k\<close> as small as possible; among several \<open>s\<close> the one closest to \<open>x\<close>.
  \<open>digit_candidates v k\<close> lists the pairs \<open>(n, s)\<close> that qualify for a given \<open>k\<close>;
  seventeen digits identify every binary64 value.
\<close>

definition digit_candidates :: "rat \<Rightarrow> nat \<Rightarrow> (int \<times> nat) list" where
  "digit_candidates v k =
     filter (\<lambda>(n, s). 10 ^ (k - 1) \<le> s \<and> s < 10 ^ k
                      \<and> number_of (of_nat s * pow10 (n - int k)) = Fin v)
       (concat (map (\<lambda>n. [(n, nat \<lfloor>v / pow10 (n - int k)\<rfloor>),
                           (n, nat \<lceil>v / pow10 (n - int k)\<rceil>)])
                    [ilog10 v + 1, ilog10 v + 2]))"

definition closer :: "rat \<Rightarrow> nat \<Rightarrow> int \<times> nat \<Rightarrow> int \<times> nat \<Rightarrow> int \<times> nat" where
  "closer v k c d =
     (if \<bar>of_nat (snd d) * pow10 (fst d - int k) - v\<bar>
           < \<bar>of_nat (snd c) * pow10 (fst c - int k) - v\<bar> then d else c)"

fun shortest_digits :: "rat \<Rightarrow> nat \<Rightarrow> nat \<Rightarrow> int \<times> nat \<times> nat" where
  "shortest_digits v k 0 = (ilog10 v + 1, k, nat \<lfloor>v / pow10 (ilog10 v + 1 - int k)\<rfloor>)"
| "shortest_digits v k (Suc fuel) =
     (case digit_candidates v k of
        [] \<Rightarrow> shortest_digits v (Suc k) fuel
      | c # cs \<Rightarrow> (case foldl (closer v k) c cs of (n, s) \<Rightarrow> (n, k, s)))"

definition positive_toString :: "rat \<Rightarrow> jsstring" where
  "positive_toString v =
     (case shortest_digits v 1 17 of (n, k, s) \<Rightarrow>
        let ds = decimal s in
        if - 6 < n \<and> n \<le> 21 then
          if int k \<le> n then ds @ replicate (nat (n - int k)) (digit_char 0)
          else if 0 < n then take (nat n) ds @ utf16 ''.'' @ drop (nat n) ds
          else utf16 ''0.'' @ replicate (nat (- n)) (digit_char 0) @ ds
        else
          let e = n - 1;
              es = (if e < 0 then utf16 ''-'' else utf16 ''+'') @ decimal (nat \<bar>e\<bar>)
          in if k = 1 then ds @ utf16 ''e'' @ es
             else take 1 ds @ utf16 ''.'' @ drop 1 ds @ utf16 ''e'' @ es)"

definition Number_toString :: "number \<Rightarrow> jsstring" where
  "Number_toString x =
     (case x of
        NaN \<Rightarrow> utf16 ''NaN''
      | NegZero \<Rightarrow> utf16 ''0''
      | PosInf \<Rightarrow> utf16 ''Infinity''
      | NegInf \<Rightarrow> utf16 ''-Infinity''
      | Fin q \<Rightarrow> if q = 0 then utf16 ''0''
                 else if q < 0 then utf16 ''-'' @ positive_toString (- q)
                 else positive_toString q)"

text \<open>
  \<open>Number.prototype.toFixed(fractionDigits)\<close> (ECMAScript 21.1.3.3), for
  \<open>fractionDigits\<close> from 0 to 100 (the source passes 2): a value that is not finite is
  printed by \<open>Number::toString\<close>; otherwise the sign is split off, a magnitude of
  \<open>10 ^ 21\<close> or more is again printed by \<open>Number::toString\<close>, and a smaller one as the
  integer \<open>n\<close> with \<open>n / 10 ^ f\<close> closest to it (the larger \<open>n\<close> of two), padded with
  zeros to more than \<open>f\<close> digits, with a point before the last \<open>f\<close> digits.
\<close>

definition toFixed :: "number \<Rightarrow> nat \<Rightarrow> jsstring" where
  "toFixed x f =
     (if \<not> is_finite x then Number_toString x
      else
        let v = mathematical_value x;
            s = (if v < 0 then utf16 ''-'' else []);
            a = \<bar>v\<bar>
        in if 10 ^ 21 \<le> a then s @ Number_toString (number_of a)
           else
             let n = nat \<lfloor>a * 10 ^ f + 1 / 2\<rfloor>;
                 m = (if n = 0 then utf16 ''0'' else decimal n);
                 m' = (if f \<noteq> 0 then
                         let k = length m;
                             z = (if k \<le> f then replicate (f + 1 - k) (digit_char 0) else []);
                             mz = z @ m;
                             kz = (if k \<le> f then f + 1 else k)
                         in take (kz - f) mz @ utf16 ''.'' @ drop (kz - f) mz
                       else m)
             in s @ m')"

section \<open>Strings to numbers\<close>

text \<open>
  \<open>StringToNumber\<close> (ECMAScript 7.1.4.1.1): the string, with white space trimmed, is
  parsed as a StringNumericLiteral; a string that does not parse gives \<open>NaN\<close>.
\<close>

definition isDecimalDigit :: "16 word \<Rightarrow> bool" where
  "isDecimalDigit c \<longleftrightarrow> 0x30 \<le> c \<and> c \<le> 0x39"

text \<open>The value of a digit in a radix up to 16; \<open>None\<close> for a code unit that is no digit.\<close>

definition digit_value :: "nat \<Rightarrow> 16 word \<Rightarrow> nat option" where
  "digit_value radix c =
     (let d = (if 0x30 \<le> c \<and> c \<le> 0x39 then unat c - 48
               else if 0x61 \<le> c \<and> c \<le> 0x66 then unat c - 87
               else if 0x41 \<le> c \<and> c \<le> 0x46 then unat c - 55
               else 16)
      in if d < radix then Some d else None)"

text \<open>The mathematical value of a non-empty digit sequence; \<open>None\<close> otherwise.\<close>

fun digits_MV :: "nat \<Rightarrow> nat \<Rightarrow> jsstring \<Rightarrow> nat option" where
  "digits_MV radix acc [] = Some acc"
| "digits_MV radix acc (c # cs) =
     (case digit_value radix c of
        None \<Rightarrow> None
      | Some d \<Rightarrow> digits_MV radix (radix * acc + d) cs)"

definition DecimalDigits :: "jsstring \<Rightarrow> nat option" where
  "DecimalDigits ds = (if ds = [] then None else digits_MV 10 0 ds)"

text \<open>SignedInteger: DecimalDigits with an optional sign.\<close>

definition SignedInteger :: "jsstring \<Rightarrow> int option" where
  "SignedInteger t =
     (case t of
        [] \<Rightarrow> None
      | c # ds \<Rightarrow>
          if c = 0x2B then map_option int (DecimalDigits ds)
          else if c = 0x2D then map_option (\<lambda>n. - int n) (DecimalDigits ds)
          else map_option int (DecimalDigits t))"

text \<open>An optional ExponentPart, up to the end of the string: \<open>e\<close> or \<open>E\<close> and a SignedInteger.\<close>

definition ExponentPart_opt :: "jsstring \<Rightarrow> int option" where
  "ExponentPart_opt t =
     (case t of
        [] \<Rightarrow> Some 0
      | c # ds \<Rightarrow> if c = 0x65 \<or> c = 0x45 then SignedInteger ds else None)"

text \<open>
  StrUnsignedDecimalLiteral: \<open>Infinity\<close>, or digits with an optional fraction and an
  optional exponent, with a digit before or after the point.  Its value is the Number
  value of the literal's mathematical value (for a literal of more than 20 significant
  digits ECMAScript also admits the value of the literal cut after the 20th digit; the
  model rounds the full literal, as V8 does).
\<close>

definition StrUnsignedDecimalLiteral :: "jsstring \<Rightarrow> number option" where
  "StrUnsignedDecimalLiteral t =
     (if t = utf16 ''Infinity'' then Some PosInf
      else
        let ip = takeWhile isDecimalDigit t;
            r1 = dropWhile isDecimalDigit t;
            dot = (r1 \<noteq> [] \<and> hd r1 = 0x2E);
            r2 = (if dot then tl r1 else r1);
            fp = (if dot then takeWhile isDecimalDigit r2 else []);
            r3 = (if dot then dropWhile isDecimalDigit r2 else r2)
        in if ip = [] \<and> fp = [] then None
           else
             (case (digits_MV 10 0 (ip @ fp), ExponentPart_opt r3) of
                (Some m, Some e) \<Rightarrow> Some (number_of (of_nat m * pow10 (e - int (length fp))))
              | _ \<Rightarrow> None))"

text \<open>NonDecimalIntegerLiteral: \<open>0b\<close>, \<open>0o\<close> or \<open>0x\<close> (either case) and digits of that radix.\<close>

definition NonDecimalIntegerLiteral :: "jsstring \<Rightarrow> number option" where
  "NonDecimalIntegerLiteral t =
     (case t of
        z # p # ds \<Rightarrow>
          if z = 0x30 \<and> ds \<noteq> [] then
            (let radix = (if p = 0x62 \<or> p = 0x42 then 2
                          else if p = 0x6F \<or> p = 0x4F then 8
                          else if p = 0x78 \<or> p = 0x58 then 16 else 0)
             in if radix = 0 then None
                else map_option (\<lambda>m. number_of (of_nat m)) (digits_MV radix 0 ds))
          else None
      | _ \<Rightarrow> None)"

definition negate :: "number \<Rightarrow> number" where
  "negate x =
     (case x of
        NaN \<Rightarrow> NaN | PosInf \<Rightarrow> NegInf | NegInf \<Rightarrow> PosInf | NegZero \<Rightarrow> Fin 0
      | Fin q \<Rightarrow> if q = 0 then NegZero else Fin (- q))"

definition StrDecimalLiteral :: "jsstring \<Rightarrow> number option" where
  "StrDecimalLiteral t =
     (case t of
        [] \<Rightarrow> None
      | c # u \<Rightarrow>
          if c = 0x2B then StrUnsignedDecimalLiteral u
          else if c = 0x2D then map_option negate (StrUnsignedDecimalLiteral u)
          else StrUnsignedDecimalLiteral t)"

definition StringToNumber :: "jsstring \<Rightarrow> number" where
  "StringToNumber str =
     (let t = trim str
      in if t = [] then Fin 0
         else case NonDecimalIntegerLiteral t of
                Some x \<Rightarrow> x
              | None \<Rightarrow> (case StrDecimalLiteral t of Some x \<Rightarrow> x | None \<Rightarrow> NaN))"

section \<open>JavaScript values\<close>

text \<open>
  The values a Firestore document field can hold, as the client library hands them to
  the page: primitives, and objects (maps, arrays, timestamps, references).  The page
  uses an object only through \<open>Number()\<close>, which first takes its primitive value
  (ToPrimitive with hint number); an object is modelled by that primitive.
\<close>

datatype primitive =
  JUndefined | JNull | JBoolean bool | JNumber number | JString jsstring

datatype jsval = Primitive primitive | Object primitive

text \<open>The function \<open>Number(value)\<close>: ToNumber (ECMAScript 7.1.4) of the primitive value.\<close>

definition ToNumber :: "primitive \<Rightarrow> number" where
  "ToNumber p =
     (case p of
        JUndefined \<Rightarrow> NaN
      | JNull \<Rightarrow> Fin 0
      | JBoolean b \<Rightarrow> (if b then Fin 1 else Fin 0)
      | JNumber x \<Rightarrow> x
      | JString str \<Rightarrow> StringToNumber str)"

definition Number :: "jsval \<Rightarrow> number" where
  "Number v = (case v of Primitive p \<Rightarrow> ToNumber p | Object p \<Rightarrow> ToNumber p)"

text \<open>Reading a property of an object: \<open>undefined\<close> when the object has no such key.\<close>

definition property :: "(jsstring \<rightharpoonup> jsval) \<Rightarrow> jsstring \<Rightarrow> jsval" where
  "property obj k = (case obj k of None \<Rightarrow> Primitive JUndefined | Some v \<Rightarrow> v)"

section \<open>The page \<open>src/app/page.js\<close>\<close>

subsection \<open>State\<close>

text \<open>
  The four state variables of \<open>Home\<close>: \<open>items\<close>, \<open>newItem\<close>, \<open>total\<close> and \<open>error\<close>.
  \<open>newItem\<close> holds the two form fields as strings.  An element of \<open>items\<close> is the object
  \<open>{...doc.data(), id: doc.id, price: Number(doc.data().price)}\<close> built by the snapshot
  listener, the only writer of \<open>items\<close>: the fields of the document, with \<open>id\<close> a string
  and \<open>price\<close> a Number in their place.
\<close>

record draft =
  name :: jsstring
  price :: jsstring

record item =
  item_id :: jsstring
  item_price :: number
  item_data :: "jsstring \<rightharpoonup> jsval"

record state =
  items :: "item list"
  newItem :: draft
  total :: primitive
  error :: "jsstring option"

definition initial_state :: state where
  "initial_state =
     \<lparr>items = [], newItem = \<lparr>name = [], price = []\<rparr>,
      total = JNumber (Fin 0), error = None\<rparr>"

subsection \<open>The store\<close>

text \<open>
  Firestore is outside the page.  The model records the calls the page makes and takes
  the outcome of the awaited promise, the time \<open>new Date()\<close> reads and the answer of
  \<open>window.confirm\<close> as inputs.  A date is its time value in milliseconds.
\<close>

type_synonym date = int

record new_doc =
  doc_name :: jsstring
  doc_price :: number
  createdAt :: date

datatype store_call =
  addDoc jsstring new_doc
| deleteDoc jsstring jsstring

datatype outcome = Resolved | Rejected

record snapshot_doc =
  doc_id :: jsstring
  doc_data :: "jsstring \<rightharpoonup> jsval"

subsection \<open>Handlers and effects\<close>

text \<open>
  \<open>addItem\<close> (lines 32-56), run to completion on the state of the render that holds the
  handler: the error is cleared, the two checks return early, and otherwise one \<open>addDoc\<close>
  is issued whose outcome decides between clearing the form and the failure message.
  \<open>e.preventDefault()\<close> and the console output touch no state and are left out.
\<close>

definition addItem :: "state \<Rightarrow> date \<Rightarrow> outcome \<Rightarrow> state \<times> store_call list" where
  "addItem s now result =
     (let s0 = s\<lparr>error := None\<rparr>
      in if trim (name (newItem s)) = [] then
           (s0\<lparr>error := Some (utf16 ''Please enter an expense name.'')\<rparr>, [])
         else if price (newItem s) = [] then
           (s0\<lparr>error := Some (utf16 ''Please enter an amount.'')\<rparr>, [])
         else
           let call = addDoc (utf16 ''items'')
                        \<lparr>doc_name = trim (name (newItem s)),
                         doc_price = Number (Primitive (JString (price (newItem s)))),
                         createdAt = now\<rparr>
           in case result of
                Resolved \<Rightarrow> (s0\<lparr>newItem := \<lparr>name = [], price = []\<rparr>\<rparr>, [call])
              | Rejected \<Rightarrow>
                  (s0\<lparr>error := Some (utf16 ''Failed to add item. Please try again.'')\<rparr>,
                   [call]))"

text \<open>The listener passed to \<open>onSnapshot\<close> (lines 74-80), on the documents of a snapshot.\<close>

definition onSnapshot_callback :: "snapshot_doc list \<Rightarrow> state \<Rightarrow> state" where
  "onSnapshot_callback docs s =
     s\<lparr>items :=
         map (\<lambda>doc. \<lparr>item_id = doc_id doc,
                      item_price = Number (property (doc_data doc) (utf16 ''price'')),
                      item_data = doc_data doc\<rparr>) docs\<rparr>"

text \<open>The effect on \<open>items\<close> (lines 98-101): \<open>reduce\<close> from 0 with \<open>+\<close>, then \<open>toFixed(2)\<close>.\<close>

definition newTotal :: "item list \<Rightarrow> number" where
  "newTotal its = foldl (\<lambda>sum it. Number_add sum (item_price it)) (Fin 0) its"

definition total_effect :: "state \<Rightarrow> state" where
  "total_effect s = s\<lparr>total := JString (toFixed (newTotal (items s)) 2)\<rparr>"

text \<open>
  A snapshot as React processes it: the listener sets \<open>items\<close> to a new array, and the
  effect that depends on \<open>items\<close> runs after the render.
\<close>

definition receive_snapshot :: "snapshot_doc list \<Rightarrow> state \<Rightarrow> state" where
  "receive_snapshot docs s = total_effect (onSnapshot_callback docs s)"

text \<open>
  \<open>deleteItem\<close> (lines 113-124), with the answer of \<open>window.confirm\<close> and the outcome of
  \<open>deleteDoc\<close>.
\<close>

definition deleteItem :: "state \<Rightarrow> jsstring \<Rightarrow> bool \<Rightarrow> outcome \<Rightarrow> state \<times> store_call list" where
  "deleteItem s ident confirmed result =
     (if confirmed then
        let s0 = s\<lparr>error := None\<rparr>;
            call = deleteDoc (utf16 ''items'') ident
        in case result of
             Resolved \<Rightarrow> (s0, [call])
           | Rejected \<Rightarrow>
               (s0\<lparr>error := Some (utf16 ''Failed to delete item. Please try again.'')\<rparr>,
                [call])
      else (s, []))"

text \<open>
  The total row of the rendered page (lines 177-182): present when \<open>items.length > 0\<close>,
  and then showing \<open>total\<close>.
\<close>

definition total_row :: "state \<Rightarrow> primitive option" where
  "total_row s = (if 0 < length (items s) then Some (total s) else None)"

subsection \<open>The add form\<close>

text \<open>
  The form of lines 135-158: the name is an \<open>input\<close> of type \<open>text\<close>, the price an \<open>input\<close>
  of type \<open>number\<close> with \<open>min="0"\<close> and \<open>step="0.01"\<close>, both controlled by \<open>newItem\<close>; the
  form has no \<open>noValidate\<close>, so submitting it validates the price field before \<open>onSubmit\<close>,
  that is \<open>addItem\<close>, is called.  What the number field does is HTML's (the Number state of
  \<open>input\<close>, and constraint validation), modelled here as far as the page depends on it.

  A valid floating-point number of HTML: an optional \<open>-\<close>, then digits, or a point and
  digits, or both, then an optional exponent.  \<open>floating_point_number\<close> reads the part
  after the sign and gives its mathematical value.
\<close>

definition floating_point_number :: "jsstring \<Rightarrow> rat option" where
  "floating_point_number u =
     (let ip = takeWhile isDecimalDigit u;
          r1 = dropWhile isDecimalDigit u;
          dot = (r1 \<noteq> [] \<and> hd r1 = 0x2E);
          r2 = (if dot then tl r1 else r1);
          fp = (if dot then takeWhile isDecimalDigit r2 else []);
          r3 = (if dot then dropWhile isDecimalDigit r2 else r2)
      in if (if dot then fp = [] else ip = []) then None
         else
           (case (digits_MV 10 0 (ip @ fp), ExponentPart_opt r3) of
              (Some m, Some e) \<Rightarrow> Some (of_nat m * pow10 (e - int (length fp)))
            | _ \<Rightarrow> None))"

definition valid_floating_point_number :: "jsstring \<Rightarrow> bool" where
  "valid_floating_point_number v =
     (case v of
        [] \<Rightarrow> False
      | c # u \<Rightarrow> if c = 0x2D then floating_point_number u \<noteq> None
                 else floating_point_number v \<noteq> None)"

text \<open>
  The value of a number field is sanitized: what is not a valid floating-point number
  becomes the empty string.  This is the string \<open>e.target.value\<close> gives.
\<close>

definition value_sanitization :: "jsstring \<Rightarrow> jsstring" where
  "value_sanitization v = (if valid_floating_point_number v then v else [])"

text \<open>
  The number a value of the field stands for, by HTML's rules for converting a string to
  a number, on a valid floating-point number: the nearest binary64 value, never \<open>-0\<close>,
  and an error, here \<open>None\<close>, for a value that rounds beyond the binary64 range.
\<close>

definition convert_to_number :: "jsstring \<Rightarrow> number option" where
  "convert_to_number v =
     (case v of
        [] \<Rightarrow> None
      | c # u \<Rightarrow>
          if c = 0x2D then
            (case floating_point_number u of
               None \<Rightarrow> None
             | Some x \<Rightarrow> (case number_of x of Fin q \<Rightarrow> Some (Fin (- q)) | _ \<Rightarrow> None))
          else
            (case floating_point_number v of
               None \<Rightarrow> None
             | Some x \<Rightarrow> (case number_of x of Fin q \<Rightarrow> Some (Fin q) | _ \<Rightarrow> None)))"

text \<open>
  The field suffers from an underflow when its value converts to a number and that
  number is below the minimum, 0.
\<close>

definition rangeUnderflow :: "jsstring \<Rightarrow> bool" where
  "rangeUnderflow v =
     (case convert_to_number v of
        Some (Fin q) \<Rightarrow> q < 0
      | _ \<Rightarrow> False)"

text \<open>The two \<open>onChange\<close> handlers (lines 138 and 145), on the value of the event's target.\<close>

definition onChange_name :: "jsstring \<Rightarrow> state \<Rightarrow> state" where
  "onChange_name v s = s\<lparr>newItem := (newItem s)\<lparr>name := v\<rparr>\<rparr>"

definition onChange_price :: "jsstring \<Rightarrow> state \<Rightarrow> state" where
  "onChange_price v s = s\<lparr>newItem := (newItem s)\<lparr>price := v\<rparr>\<rparr>"

text \<open>
  Submitting the form.  The price field holds the value React gave it, \<open>newItem.price\<close>.
  When the field suffers from an underflow the browser reports the problem and calls no
  handler.  It does the same for the other reasons a number field with a step can have:
  a step mismatch, whose arithmetic is the browser's, bad input, which is text in the
  field that is no number for the browser, and what a browser itself does with a value
  that does not convert (browsers empty it or compare its decimal value; the rules of
  HTML as written let it pass).  Whether one of these other reasons holds is an input,
  \<open>other_flags\<close>.  The name field has no constraint.
\<close>

definition onSubmit :: "bool \<Rightarrow> state \<Rightarrow> date \<Rightarrow> outcome \<Rightarrow> state \<times> store_call list" where
  "onSubmit other_flags s now result =
     (if other_flags \<or> rangeUnderflow (price (newItem s)) then (s, [])
      else addItem s now result)"

text \<open>
  The states of the page: the state at mount, and what the handlers, the listener and the
  effect make of a state of the page.  The price handler receives a sanitized value.
\<close>

inductive reachable :: "state \<Rightarrow> bool" where
  mount: "reachable initial_state"
| name_typed: "reachable s \<Longrightarrow> reachable (onChange_name v s)"
| price_typed: "reachable s \<Longrightarrow> reachable (onChange_price (value_sanitization raw) s)"
| submitted: "reachable s \<Longrightarrow> reachable (fst (onSubmit other_flags s now result))"
| snapshot: "reachable s \<Longrightarrow> reachable (receive_snapshot docs s)"
| delete_clicked: "reachable s \<Longrightarrow> reachable (fst (deleteItem s ident confirmed result))"
| total_derived: "reachable s \<Longrightarrow> reachable (total_effect s)"

section \<open>Notions of the specification\<close>

text \<open>
  The specification's "formatted to exactly two decimal places": the value rounded to
  hundredths, halves away from zero, printed as an optional minus sign, the digits of the
  integer part, a point, and two digits.
\<close>

definition spec_two_decimals :: "rat \<Rightarrow> jsstring" where
  "spec_two_decimals v =
     (let n = nat \<lfloor>\<bar>v\<bar> * 100 + 1 / 2\<rfloor>
      in (if v < 0 then utf16 ''-'' else [])
         @ decimal (n div 100) @ utf16 ''.''
         @ [digit_char (n div 10 mod 10), digit_char (n mod 10)])"

text \<open>
  The specification's "sum of the price fields" is the sum of the mathematical values.
  The page adds Numbers, so the two agree when no addition has to round:
  \<open>exact_sums 0 L\<close> says that every price of \<open>L\<close> is finite and every partial sum is a
  binary64 value.
\<close>

fun exact_sums :: "rat \<Rightarrow> item list \<Rightarrow> bool" where
  "exact_sums acc [] = True"
| "exact_sums acc (it # its) =
     (is_finite (item_price it)
      \<and> is_double (acc + mathematical_value (item_price it))
      \<and> exact_sums (acc + mathematical_value (item_price it)) its)"

text \<open>The specification's "numeric price \<open>\<ge> 0\<close>", as JavaScript's \<open>price >= 0\<close> decides it.\<close>

definition spec_price_ok :: "number \<Rightarrow> bool" where
  "spec_price_ok x =
     (case x of
        NaN \<Rightarrow> False | PosInf \<Rightarrow> True | NegInf \<Rightarrow> False | NegZero \<Rightarrow> True
      | Fin q \<Rightarrow> 0 \<le> q)"

text \<open>
  The specification's "non-empty name" of a listed item or a document: the field \<open>name\<close>
  is a string that is not empty.
\<close>

definition spec_name_ok :: "jsval \<Rightarrow> bool" where
  "spec_name_ok v = (case v of Primitive (JString n) \<Rightarrow> n \<noteq> [] | _ \<Rightarrow> False)"

section \<open>Lemmas about numbers\<close>

lemma floor_rat_numeral [simp]:
  "\<lfloor>numeral a / numeral b :: rat\<rfloor> = numeral a div numeral b"
  using floor_divide_of_int_eq [of "numeral a" "numeral b", where ?'a = rat] by simp

lemma ceiling_rat_numeral [simp]:
  "\<lceil>numeral a / numeral b :: rat\<rceil> = - (- numeral a div numeral b)"
  using ceiling_divide_eq_div [of "numeral a" "numeral b", where ?'a = rat] by simp

lemma floor_rat_one_numeral [simp]:
  "\<lfloor>1 / numeral b :: rat\<rfloor> = 1 div numeral b"
  using floor_divide_of_int_eq [of 1 "numeral b", where ?'a = rat] by simp

lemma ceiling_rat_one_numeral [simp]:
  "\<lceil>1 / numeral b :: rat\<rceil> = - (- 1 div numeral b)"
  using ceiling_divide_eq_div [of 1 "numeral b", where ?'a = rat] by simp

lemma round_half_even_of_int [simp]: "round_half_even (of_int k) = k"
  by (simp add: round_half_even_def)

lemma ulp_pos: "0 < ulp a"
  by (simp add: ulp_def pow2_def)

text \<open>Rounding leaves a binary64 value as it is.\<close>

lemma number_of_exact:
  assumes "is_double q"
  shows "number_of q = Fin q"
proof (cases "q = 0")
  case True
  then show ?thesis by (simp add: number_of_def)
next
  case False
  define a where "a = \<bar>q\<bar>"
  define k where "k = \<lfloor>a / ulp a\<rfloor>"
  from False assms have lt: "a < pow2 1024" and int: "\<lfloor>a / ulp a\<rfloor> = \<lceil>a / ulp a\<rceil>"
    unfolding is_double_def a_def by blast+
  have k: "a / ulp a = of_int k"
    unfolding k_def using int
    by (metis floor_le_ceiling ceiling_correct floor_correct order_antisym of_int_floor_le
        le_of_int_ceiling)
  have u: "ulp a \<noteq> 0"
    using ulp_pos [of a] by simp
  have r: "of_int k * ulp a = a"
    using k u by (simp add: field_simps)
  have kn: "k \<noteq> 0"
    using r False by (auto simp: a_def)
  have rnd: "round_half_even (a / ulp a) = k"
    by (simp only: k round_half_even_of_int)
  have "number_of q = Fin (if q < 0 then - a else a)"
    using False lt kn unfolding number_of_def Let_def a_def [symmetric] rnd r
    by simp
  then show ?thesis
    by (simp add: a_def)
qed

subsection \<open>Rounding is correct\<close>

lemma bitlen_bounds: "0 < n \<Longrightarrow> 2 ^ (bitlen n - 1) \<le> n \<and> n < 2 ^ bitlen n"
proof (induction n rule: bitlen.induct)
  case (1 n)
  show ?case
  proof (cases "n div 2 = 0")
    case True
    with "1.prems" have "n = 1" by (simp add: div_eq_0_iff) 
    then show ?thesis by (simp add: bitlen.simps)
  next
    case False
    then have pos: "0 < n div 2" by simp
    from "1.prems" have n0: "n \<noteq> 0" by simp
    from "1.IH" [OF n0 pos] have lo: "2 ^ (bitlen (n div 2) - 1) \<le> n div 2"
      and hi: "n div 2 < 2 ^ bitlen (n div 2)" by simp_all
    have b: "bitlen n = Suc (bitlen (n div 2))"
      using n0 by (subst bitlen.simps) simp
    have bpos: "0 < bitlen (n div 2)"
      using pos by (subst bitlen.simps) simp
    have "2 * 2 ^ (bitlen (n div 2) - 1) \<le> 2 * (n div 2)"
      using lo by simp
    also have "\<dots> \<le> n" by simp
    finally have l: "2 ^ (bitlen n - 1) \<le> n"
      using bpos by (simp add: b power_Suc [symmetric] del: power_Suc)
    have "n < 2 * (n div 2) + 2" by presburger
    also have "\<dots> \<le> 2 * 2 ^ bitlen (n div 2)"
      using hi by simp
    finally have "n < 2 ^ bitlen n"
      by (simp add: b)
    with l show ?thesis by simp
  qed
qed

lemma pow2_nat: "pow2 (int k) = 2 ^ k"
  by (simp add: pow2_def)

lemma pow2_neg: "pow2 (- int k) = 1 / 2 ^ k"
  by (cases "k = 0") (simp_all add: pow2_def)

lemma ilog2_bounds:
  assumes "0 < q"
  shows "pow2 (ilog2 q) \<le> q \<and> q < pow2 (ilog2 q + 1)"
proof (cases "1 \<le> q")
  case True
  define n where "n = nat \<lfloor>q\<rfloor>"
  have npos: "0 < n" using True by (simp add: n_def)
  have nq: "of_nat n \<le> q" "q < of_nat n + 1"
    using True by (simp_all add: n_def) linarith+
  from bitlen_bounds [OF npos] have lo: "2 ^ (bitlen n - 1) \<le> n" and hi: "n < 2 ^ bitlen n"
    by simp_all
  have bpos: "0 < bitlen n" using npos by (subst bitlen.simps) simp
  have e: "ilog2 q = int (bitlen n) - 1"
    using True by (simp add: ilog2_def n_def)
  have "pow2 (ilog2 q) = 2 ^ (bitlen n - 1)"
    using bpos by (simp add: e pow2_def nat_diff_distrib')
  also have "\<dots> = of_nat (2 ^ (bitlen n - 1))" by simp
  also have "\<dots> \<le> of_nat n" using lo by (simp only: of_nat_le_iff)
  finally have l: "pow2 (ilog2 q) \<le> q" using nq by simp
  have "n + 1 \<le> 2 ^ bitlen n" using hi by simp
  then have "(of_nat (n + 1) :: rat) \<le> of_nat (2 ^ bitlen n)" by (simp only: of_nat_le_iff)
  then have "q < 2 ^ bitlen n" using nq by simp
  moreover have "pow2 (ilog2 q + 1) = 2 ^ bitlen n"
    by (simp add: e pow2_def)
  ultimately show ?thesis using l by simp
next
  case False
  with assms have q1: "q < 1" and inv: "1 < 1 / q" by simp_all
  define c where "c = \<lceil>1 / q\<rceil>"
  define m where "m = nat (c - 1)"
  have c2: "2 \<le> c"
    using inv unfolding c_def by linarith
  have cq: "1 / q \<le> of_int c" "of_int c - 1 < 1 / q"
    unfolding c_def by linarith+
  have mpos: "0 < m" using c2 by (simp add: m_def)
  have mc: "int m = c - 1" using c2 by (simp add: m_def)
  then have mc': "(of_nat m :: rat) = of_int c - 1"
    by (metis of_int_of_nat_eq of_int_diff of_int_1)
  from bitlen_bounds [OF mpos] have lo: "2 ^ (bitlen m - 1) \<le> m" and hi: "m < 2 ^ bitlen m"
    by simp_all
  have bpos: "0 < bitlen m" using mpos by (subst bitlen.simps) simp
  have e: "ilog2 q = - int (bitlen m)"
    using False by (simp add: ilog2_def m_def c_def)
  have "m + 1 \<le> 2 ^ bitlen m" using hi by simp
  then have "(of_nat (m + 1) :: rat) \<le> of_nat (2 ^ bitlen m)" by (simp only: of_nat_le_iff)
  then have "of_int c \<le> (2 :: rat) ^ bitlen m" using mc' by simp
  with cq have "1 / q \<le> 2 ^ bitlen m" by linarith
  then have l: "1 / 2 ^ bitlen m \<le> q"
    using assms by (simp add: field_simps)
  have "(of_nat (2 ^ (bitlen m - 1)) :: rat) \<le> of_nat m" using lo by (simp only: of_nat_le_iff)
  then have "(2 :: rat) ^ (bitlen m - 1) < 1 / q" using cq mc' by simp
  then have h: "q < 1 / 2 ^ (bitlen m - 1)"
    using assms by (simp add: field_simps)
  have "ilog2 q + 1 = - int (bitlen m - 1)"
    using bpos by (simp add: e)
  then have "pow2 (ilog2 q + 1) = 1 / 2 ^ (bitlen m - 1)"
    by (simp only: pow2_neg)
  moreover have "pow2 (ilog2 q) = 1 / 2 ^ bitlen m"
    by (simp only: e pow2_neg)
  ultimately show ?thesis using l h by simp
qed


lemma pow2_powi: "pow2 e = 2 powi e"
  by (simp add: pow2_def power_int_def power_one_over inverse_eq_divide)

lemma pow2_pos: "0 < pow2 e"
  by (simp add: pow2_def)

lemma pow2_add: "pow2 (a + b) = pow2 a * pow2 b"
  by (simp add: pow2_powi power_int_add)

lemma pow2_mono: "a \<le> b \<Longrightarrow> pow2 a \<le> pow2 b"
  by (simp add: pow2_powi power_int_increasing)

lemma pow2_strict_mono: "a < b \<Longrightarrow> pow2 a < pow2 b"
  by (simp add: pow2_powi power_int_strict_increasing)

lemma pow2_less_iff: "pow2 a < pow2 b \<longleftrightarrow> a < b"
  using pow2_mono [of b a] pow2_strict_mono [of a b] by (auto simp: not_less [symmetric])

lemma ilog2_unique:
  assumes "0 < r" "pow2 k \<le> r" "r < pow2 (k + 1)"
  shows "ilog2 r = k"
proof -
  from ilog2_bounds [OF assms(1)]
  have lo: "pow2 (ilog2 r) \<le> r" and hi: "r < pow2 (ilog2 r + 1)" by simp_all
  from lo assms(3) have "pow2 (ilog2 r) < pow2 (k + 1)" by simp
  then have "ilog2 r < k + 1" by (simp only: pow2_less_iff)
  moreover from hi assms(2) have "pow2 k < pow2 (ilog2 r + 1)" by simp
  then have "k < ilog2 r + 1" by (simp only: pow2_less_iff)
  ultimately show ?thesis by simp
qed

lemma round_half_even_cases:
  "round_half_even q = \<lfloor>q\<rfloor> \<or> round_half_even q = \<lfloor>q\<rfloor> + 1 \<and> 1 / 2 \<le> q - of_int \<lfloor>q\<rfloor>"
  by (auto simp: round_half_even_def Let_def)

lemma round_half_even_near: "\<bar>of_int (round_half_even q) - q\<bar> \<le> 1 / 2"
proof -
  define f where "f = \<lfloor>q\<rfloor>"
  have b: "of_int f \<le> q" "q < of_int f + 1" unfolding f_def by linarith+
  from round_half_even_cases [of q]
  consider "round_half_even q = f" "q - of_int f \<le> 1 / 2"
    | "round_half_even q = f + 1" "1 / 2 \<le> q - of_int f"
    unfolding f_def by (auto simp: round_half_even_def Let_def split: if_splits)
  then show ?thesis
  proof cases
    case 1
    with b show ?thesis by simp
  next
    case 2
    with b show ?thesis by simp
  qed
qed

lemma round_half_even_le: "q \<le> of_int M \<Longrightarrow> round_half_even q \<le> M"
proof -
  assume q: "q \<le> of_int M"
  then have f: "\<lfloor>q\<rfloor> \<le> M" by (simp add: floor_le_iff)
  show ?thesis
  proof (cases "\<lfloor>q\<rfloor> = M")
    case True
    with q have "q = of_int \<lfloor>q\<rfloor>" by (metis of_int_floor_le order_antisym)
    then have "q - of_int \<lfloor>q\<rfloor> = 0" by simp
    then show ?thesis using True round_half_even_cases [of q] by auto
  next
    case False
    with f have "\<lfloor>q\<rfloor> + 1 \<le> M" by simp
    then show ?thesis using round_half_even_cases [of q] by auto
  qed
qed

lemma round_half_even_ge: "of_int M \<le> q \<Longrightarrow> M \<le> round_half_even q"
proof -
  assume "of_int M \<le> q"
  then have "M \<le> \<lfloor>q\<rfloor>" by (simp add: le_floor_iff)
  then show ?thesis using round_half_even_cases [of q] by auto
qed


lemma pow2_shift: "pow2 (e + int k) = pow2 e * 2 ^ k"
  by (simp add: pow2_add pow2_nat)

lemma significand_bounds:
  assumes "0 < a"
  defines "n \<equiv> round_half_even (a / ulp a)"
  shows "0 \<le> n" and "n \<le> 2 ^ 53"
    and "\<bar>of_int n * ulp a - a\<bar> \<le> ulp a / 2"
    and "- 1022 \<le> ilog2 a \<Longrightarrow> 2 ^ 52 \<le> n"
    and "ilog2 a < - 1022 \<Longrightarrow> n \<le> 2 ^ 52"
proof -
  define E where "E = max (ilog2 a) (- 1022)"
  define u where "u = ulp a"
  define t where "t = a / u"
  have u: "u = pow2 (E - 52)" by (simp add: u_def ulp_def E_def)
  have upos: "0 < u" by (simp add: u pow2_pos)
  have a: "a = t * u" using upos by (simp add: t_def)
  from ilog2_bounds [OF assms(1)]
  have lo: "pow2 (ilog2 a) \<le> a" and hi: "a < pow2 (ilog2 a + 1)" by simp_all
  have n: "n = round_half_even t" by (simp add: n_def t_def u_def)
  have "0 \<le> t" using assms(1) upos by (simp add: t_def)
  then have "of_int 0 \<le> t" by simp
  then show "0 \<le> n" unfolding n by (rule round_half_even_ge)
  have "pow2 (ilog2 a + 1) \<le> pow2 (E + 1)"
    by (rule pow2_mono) (simp add: E_def)
  also have "pow2 (E + 1) = u * 2 ^ 53"
  proof -
    have "E + 1 = (E - 52) + int 53" by simp
    then show ?thesis unfolding u by (simp only: pow2_shift)
  qed
  finally have "a < u * 2 ^ 53" using hi by simp
  then have "t < 2 ^ 53" using upos by (simp add: t_def field_simps)
  then have "t \<le> of_int (2 ^ 53)" by simp
  then show "n \<le> 2 ^ 53" unfolding n by (rule round_half_even_le)
  have "of_int n * u - a = (of_int n - t) * u"
    by (simp add: a left_diff_distrib)
  then have "\<bar>of_int n * u - a\<bar> = \<bar>of_int n - t\<bar> * u"
    using upos by (simp add: abs_mult)
  also have "\<dots> \<le> (1 / 2) * u"
    using round_half_even_near [of t] upos by (intro mult_right_mono) (simp_all add: n)
  finally show "\<bar>of_int n * ulp a - a\<bar> \<le> ulp a / 2" by (simp add: u_def)
  show "2 ^ 52 \<le> n" if "- 1022 \<le> ilog2 a"
  proof -
    from that have "E = ilog2 a" by (simp add: E_def)
    moreover have "E = (E - 52) + int 52" by simp
    then have "pow2 E = u * 2 ^ 52" unfolding u by (metis pow2_shift)
    ultimately have "pow2 (ilog2 a) = u * 2 ^ 52" by simp
    with lo have "u * 2 ^ 52 \<le> a" by simp
    then have "2 ^ 52 \<le> t" using upos by (simp add: t_def field_simps)
    then have "of_int (2 ^ 52) \<le> t" by simp
    then show ?thesis unfolding n by (rule round_half_even_ge)
  qed
  show "n \<le> 2 ^ 52" if "ilog2 a < - 1022"
  proof -
    from that have E: "E = - 1022" by (simp add: E_def)
    have "pow2 (ilog2 a + 1) \<le> pow2 (- 1022)"
      by (rule pow2_mono) (use that in simp)
    also have "pow2 (- 1022) = u * 2 ^ 52"
    proof -
      have "E = (E - 52) + int 52" by simp
      then have "pow2 E = u * 2 ^ 52" unfolding u by (metis pow2_shift)
      then show ?thesis by (simp only: E)
    qed
    finally have "a < u * 2 ^ 52" using hi by simp
    then have "t < 2 ^ 52" using upos by (simp add: t_def field_simps)
    then have "t \<le> of_int (2 ^ 52)" by simp
    then show ?thesis unfolding n by (rule round_half_even_le)
  qed
qed


lemma is_double_multiple:
  assumes "0 < a" and n: "1 \<le> n" and lt: "of_int n * ulp a < pow2 1024"
    and rnd: "n = round_half_even (a / ulp a)"
  shows "is_double (of_int n * ulp a)"
proof -
  define E where "E = max (ilog2 a) (- 1022)"
  define u where "u = ulp a"
  define r where "r = of_int n * u"
  have u: "u = pow2 (E - 52)" by (simp add: u_def ulp_def E_def)
  have upos: "0 < u" by (simp add: u pow2_pos)
  have rpos: "0 < r" using n upos by (simp add: r_def)
  have E52: "pow2 E = u * 2 ^ 52"
  proof -
    have "E = (E - 52) + int 52" by simp
    then show ?thesis unfolding u by (metis pow2_shift)
  qed
  have E53: "pow2 (E + 1) = u * 2 ^ 53"
  proof -
    have "E + 1 = (E - 52) + int 53" by simp
    then show ?thesis unfolding u by (simp only: pow2_shift)
  qed
  from significand_bounds [OF assms(1)] rnd
  have n53: "n \<le> 2 ^ 53"
    and normal: "- 1022 \<le> ilog2 a \<Longrightarrow> 2 ^ 52 \<le> n"
    and subnormal: "ilog2 a < - 1022 \<Longrightarrow> n \<le> 2 ^ 52"
    by simp_all
  have int: "\<lfloor>of_int k :: rat\<rfloor> = \<lceil>of_int k :: rat\<rceil>" for k :: int by simp
  have "\<lfloor>r / ulp r\<rfloor> = \<lceil>r / ulp r\<rceil>"
  proof (cases "- 1022 \<le> ilog2 a")
    case True
    then have E: "E = ilog2 a" and Ege: "- 1022 \<le> E" by (simp_all add: E_def)
    from normal [OF True] have n52: "2 ^ 52 \<le> n" .
    then have "(of_int (2 ^ 52) :: rat) \<le> of_int n" by (simp only: of_int_le_iff)
    then have lo: "pow2 E \<le> r" using upos by (simp add: r_def E52 mult.commute)
    show ?thesis
    proof (cases "n = 2 ^ 53")
      case True
      then have r: "r = pow2 (E + 1)" by (simp add: r_def E53 mult.commute)
      have "ilog2 r = E + 1"
        using rpos by (rule ilog2_unique) (simp_all add: r pow2_strict_mono)
      then have "ulp r = pow2 ((E - 52) + int 1)"
        using Ege by (simp add: ulp_def max_def)
      then have "ulp r = u * 2" unfolding u by (simp only: pow2_shift power_one_right)
      then have "r / ulp r = of_int (2 ^ 52)"
        using upos True by (simp add: r_def)
      then show ?thesis by (simp only: int)
    next
      case False
      with n53 have "n < 2 ^ 53" by simp
      then have "(of_int n :: rat) < of_int (2 ^ 53)" by (simp only: of_int_less_iff)
      then have hi: "r < pow2 (E + 1)" using upos by (simp add: r_def E53 mult.commute)
      have "ilog2 r = E"
        using rpos lo hi by (rule ilog2_unique)
      then have "ulp r = u"
        using Ege by (simp add: ulp_def u max_def)
      then have "r / ulp r = of_int n"
        using upos by (simp add: r_def)
      then show ?thesis by (simp only: int)
    qed
  next
    case False
    then have sub: "ilog2 a < - 1022" and E: "E = - 1022" by (simp_all add: E_def)
    from subnormal [OF sub] have "n \<le> 2 ^ 52" .
    then have "(of_int n :: rat) \<le> of_int (2 ^ 52)" by (simp only: of_int_le_iff)
    then have "r \<le> pow2 (- 1022)" using upos by (simp add: r_def E52 [unfolded E] mult.commute)
    also have "pow2 (- 1022) < pow2 (- 1021)" by (rule pow2_strict_mono) simp
    finally have "r < pow2 (- 1021)" .
    moreover from ilog2_bounds [OF rpos] have "pow2 (ilog2 r) \<le> r" by simp
    ultimately have "pow2 (ilog2 r) < pow2 (- 1021)" by simp
    then have "ilog2 r < - 1021" by (simp only: pow2_less_iff)
    then have "ulp r = u"
      by (simp add: ulp_def u E max_def)
    then have "r / ulp r = of_int n"
      using upos by (simp add: r_def)
    then show ?thesis by (simp only: int)
  qed
  moreover have "\<bar>r\<bar> = r" using rpos by simp
  ultimately show ?thesis
    using lt by (simp add: is_double_def r_def u_def)
qed

lemma is_double_minus: "is_double (- q) = is_double q"
  by (simp add: is_double_def)

lemma is_double_0 [simp]: "is_double 0"
  by (simp add: is_double_def)

text \<open>Every finite result of rounding is a binary64 value, within half an ulp.\<close>

lemma number_of_is_double:
  assumes "number_of x = Fin r"
  shows "is_double r"
proof (cases "x = 0")
  case True
  with assms show ?thesis by (simp add: number_of_def is_double_def)
next
  case False
  define a where "a = \<bar>x\<bar>"
  define n where "n = round_half_even (a / ulp a)"
  have apos: "0 < a" using False by (simp add: a_def)
  from significand_bounds(1) [OF apos] have n0: "0 \<le> n" by (simp add: n_def)
  show ?thesis
  proof (cases "n = 0")
    case True
    with assms False have "r = 0"
      by (simp add: number_of_def Let_def a_def [symmetric] n_def [symmetric] split: if_splits)
    then show ?thesis by (simp add: is_double_def)
  next
    case nz: False
    with n0 have n1: "1 \<le> n" by simp
    from assms False nz have lt: "of_int n * ulp a < pow2 1024"
      and r: "r = (if x < 0 then - (of_int n * ulp a) else of_int n * ulp a)"
      by (simp_all add: number_of_def Let_def a_def [symmetric] n_def [symmetric] split: if_splits)
    have "is_double (of_int n * ulp a)"
      using apos n1 lt n_def by (rule is_double_multiple)
    then show ?thesis
      by (simp add: r is_double_minus)
  qed
qed

lemma number_of_near:
  assumes "number_of x = Fin r"
  shows "\<bar>r - x\<bar> \<le> ulp \<bar>x\<bar> / 2"
proof (cases "x = 0")
  case True
  with assms show ?thesis using ulp_pos [of 0] by (simp add: number_of_def)
next
  case False
  define a where "a = \<bar>x\<bar>"
  define n where "n = round_half_even (a / ulp a)"
  have apos: "0 < a" using False by (simp add: a_def)
  from significand_bounds(3) [OF apos]
  have near: "\<bar>of_int n * ulp a - a\<bar> \<le> ulp a / 2" by (simp add: n_def)
  from assms False have r: "r = (if x < 0 then - (of_int n * ulp a) else of_int n * ulp a)"
    by (auto simp: number_of_def Let_def a_def [symmetric] n_def [symmetric] split: if_splits)
  show ?thesis
  proof (cases "x < 0")
    case True
    then have "r - x = - (of_int n * ulp a - a)" by (simp add: r a_def)
    then have "\<bar>r - x\<bar> = \<bar>of_int n * ulp a - a\<bar>" by (simp only: abs_minus_cancel)
    then show ?thesis using near by (simp only: a_def)
  next
    case False
    then have "r - x = of_int n * ulp a - a" by (simp add: r a_def)
    then show ?thesis using near by (simp only: a_def)
  qed
qed

subsection \<open>Addition\<close>

lemma Number_add_NaN [simp]: "Number_add NaN y = NaN" "Number_add x NaN = NaN"
  by (simp_all add: Number_add_def)

lemma foldl_add_NaN:
  "foldl (\<lambda>sum it. Number_add sum (item_price it)) NaN its = NaN"
  by (induction its) simp_all

text \<open>One \<open>NaN\<close> price anywhere in the list makes the whole sum \<open>NaN\<close>.\<close>

lemma foldl_add_has_NaN:
  "\<exists>it \<in> set its. item_price it = NaN \<Longrightarrow>
   foldl (\<lambda>sum it. Number_add sum (item_price it)) acc its = NaN"
proof (induction its arbitrary: acc)
  case Nil
  then show ?case by simp
next
  case (Cons it its)
  show ?case
  proof (cases "item_price it = NaN")
    case True
    then show ?thesis by (simp add: foldl_add_NaN)
  next
    case False
    with Cons.prems have "\<exists>it \<in> set its. item_price it = NaN" by simp
    then show ?thesis by (simp add: Cons.IH)
  qed
qed

lemma newTotal_Nil: "newTotal [] = Fin 0"
  by (simp add: newTotal_def)

subsection \<open>Some values\<close>

lemma number_of_7_2: "number_of (7 / 2) = Fin (7 / 2)"
proof -
  have "ilog2 (7 / 2) = 1"
    by (simp add: ilog2_def bitlen.simps)
  then have "is_double (7 / 2)"
    by (simp add: is_double_def ulp_def pow2_def)
  then show ?thesis
    by (rule number_of_exact)
qed

lemma number_of_5: "number_of 5 = Fin 5"
proof -
  have "ilog2 5 = 2"
    by (simp add: ilog2_def bitlen.simps)
  then have "is_double 5"
    by (simp add: is_double_def ulp_def pow2_def)
  then show ?thesis
    by (rule number_of_exact)
qed

lemma ilog2_1e21: "ilog2 1000000000000000000000 = 69"
  by (simp add: ilog2_def bitlen.simps)

lemma number_of_1e21: "number_of 1000000000000000000000 = Fin 1000000000000000000000"
proof -
  have "is_double 1000000000000000000000"
    by (simp add: is_double_def ulp_def ilog2_1e21 pow2_def)
  then show ?thesis
    by (rule number_of_exact)
qed

lemma number_of_1e22: "number_of 10000000000000000000000 = Fin 10000000000000000000000"
proof -
  have "ilog2 10000000000000000000000 = 73"
    by (simp add: ilog2_def bitlen.simps)
  then have "is_double 10000000000000000000000"
    by (simp add: is_double_def ulp_def pow2_def)
  then show ?thesis
    by (rule number_of_exact)
qed

text \<open>
  The Number value of the literal \<open>1.005\<close> is \<open>4526117625507348 / 2 ^ 52\<close>, a little
  below \<open>1.005\<close>; adding \<open>2\<close> to it is exact.
\<close>

lemma number_of_1_005: "number_of (1005 / 1000) = Fin (1131529406376837 / 1125899906842624)"
proof -
  have "ilog2 (201 / 200) = 0"
    by (simp add: ilog2_def bitlen.simps)
  then show ?thesis
    by (simp add: number_of_def ulp_def pow2_def round_half_even_def Let_def)
qed

lemma add_0_1_005:
  "Number_add (Fin 0) (Fin (1131529406376837 / 1125899906842624)) =
     Fin (1131529406376837 / 1125899906842624)"
proof -
  have "ilog2 (1131529406376837 / 1125899906842624) = 0"
    by (simp add: ilog2_def bitlen.simps)
  then have "is_double (1131529406376837 / 1125899906842624)"
    by (simp add: is_double_def ulp_def pow2_def)
  then have "number_of (1131529406376837 / 1125899906842624) =
      Fin (1131529406376837 / 1125899906842624)"
    by (rule number_of_exact)
  then show ?thesis
    by (simp add: Number_add_def mathematical_value_def)
qed

lemma add_1_005_2:
  "Number_add (Fin (1131529406376837 / 1125899906842624)) (Fin 2) =
     Fin (3383329220062085 / 1125899906842624)"
proof -
  have "ilog2 (3383329220062085 / 1125899906842624) = 1"
    by (simp add: ilog2_def bitlen.simps)
  then have "is_double (3383329220062085 / 1125899906842624)"
    by (simp add: is_double_def ulp_def pow2_def)
  then have "number_of (3383329220062085 / 1125899906842624) =
      Fin (3383329220062085 / 1125899906842624)"
    by (rule number_of_exact)
  then show ?thesis
    by (simp add: Number_add_def mathematical_value_def)
qed

section \<open>Lemmas about strings\<close>

text \<open>A string trims to the empty string exactly when it consists of white space.\<close>

lemma trim_Nil_iff: "trim s = [] \<longleftrightarrow> list_all isWhiteSpace s"
proof
  assume "trim s = []"
  then have all: "\<forall>c \<in> set (dropWhile isWhiteSpace s). isWhiteSpace c"
    by (simp add: trim_def dropWhile_eq_Nil_conv)
  have "dropWhile isWhiteSpace s = []"
  proof (rule ccontr)
    assume ne: "dropWhile isWhiteSpace s \<noteq> []"
    then have "\<not> isWhiteSpace (hd (dropWhile isWhiteSpace s))"
      by (rule hd_dropWhile)
    moreover have "hd (dropWhile isWhiteSpace s) \<in> set (dropWhile isWhiteSpace s)"
      using ne by simp
    ultimately show False using all by blast
  qed
  then show "list_all isWhiteSpace s"
    by (simp add: dropWhile_eq_Nil_conv list_all_iff)
next
  assume "list_all isWhiteSpace s"
  then have "dropWhile isWhiteSpace s = []"
    by (simp add: dropWhile_eq_Nil_conv list_all_iff)
  then show "trim s = []"
    unfolding trim_def by (simp only: rev.simps dropWhile.simps)
qed

lemma trim_Tea: "trim (utf16 ''Tea'') = utf16 ''Tea''"
  by (simp add: trim_def utf16_def isWhiteSpace_def)

lemma trim_Coffee: "trim (utf16 ''Coffee'') = utf16 ''Coffee''"
  by (simp add: trim_def utf16_def isWhiteSpace_def)

lemma Number_string: "Number (Primitive (JString str)) = StringToNumber str"
  by (simp add: Number_def ToNumber_def)

lemma StringToNumber_abc: "StringToNumber (utf16 ''abc'') = NaN"
  by (simp add: StringToNumber_def utf16_def trim_def isWhiteSpace_def
      NonDecimalIntegerLiteral_def StrDecimalLiteral_def StrUnsignedDecimalLiteral_def
      isDecimalDigit_def)

lemma StringToNumber_3_5: "StringToNumber (utf16 ''3.5'') = Fin (7 / 2)"
  using number_of_7_2
  by (simp add: StringToNumber_def utf16_def trim_def isWhiteSpace_def
      NonDecimalIntegerLiteral_def StrDecimalLiteral_def StrUnsignedDecimalLiteral_def
      isDecimalDigit_def ExponentPart_opt_def digit_value_def pow10_def)

lemma StringToNumber_minus_5: "StringToNumber (utf16 ''-5'') = Fin (- 5)"
  using number_of_5
  by (simp add: StringToNumber_def utf16_def trim_def isWhiteSpace_def
      NonDecimalIntegerLiteral_def StrDecimalLiteral_def StrUnsignedDecimalLiteral_def
      isDecimalDigit_def ExponentPart_opt_def digit_value_def pow10_def negate_def)

section \<open>Results are binary64 values\<close>

lemma is_binary64_simps [simp]:
  "is_binary64 NaN" "is_binary64 PosInf" "is_binary64 NegInf" "is_binary64 NegZero"
  "is_binary64 (Fin 0)"
  by (simp_all add: is_binary64_def is_double_def)

lemma number_of_binary64: "is_binary64 (number_of x)"
  by (cases "number_of x") (simp_all add: is_binary64_def number_of_is_double)

lemma Number_add_binary64:
  "is_binary64 x \<Longrightarrow> is_binary64 y \<Longrightarrow> is_binary64 (Number_add x y)"
  by (simp add: Number_add_def number_of_binary64)

lemma foldl_add_binary64:
  "is_binary64 acc \<Longrightarrow> \<forall>it \<in> set its. is_binary64 (item_price it) \<Longrightarrow>
   is_binary64 (foldl (\<lambda>sum it. Number_add sum (item_price it)) acc its)"
  by (induction its arbitrary: acc) (simp_all add: Number_add_binary64)

lemma newTotal_binary64:
  "\<forall>it \<in> set its. is_binary64 (item_price it) \<Longrightarrow> is_binary64 (newTotal its)"
  unfolding newTotal_def by (rule foldl_add_binary64) simp_all

lemma negate_binary64: "is_binary64 x \<Longrightarrow> is_binary64 (negate x)"
  by (cases x) (auto simp: negate_def is_binary64_def is_double_minus)

lemma StrUnsignedDecimalLiteral_binary64:
  "StrUnsignedDecimalLiteral t = Some x \<Longrightarrow> is_binary64 x"
  by (auto simp: StrUnsignedDecimalLiteral_def Let_def number_of_binary64
      split: if_splits option.splits)

lemma StringToNumber_binary64: "is_binary64 (StringToNumber str)"
proof -
  have dec: "is_binary64 x" if "StrDecimalLiteral t = Some x" for t x
    using that
    by (auto simp: StrDecimalLiteral_def negate_binary64
        dest: StrUnsignedDecimalLiteral_binary64 split: list.splits if_splits)
  have non: "is_binary64 x" if "NonDecimalIntegerLiteral t = Some x" for t x
    using that
    by (auto simp: NonDecimalIntegerLiteral_def Let_def number_of_binary64
        split: list.splits if_splits)
  show ?thesis
    by (auto simp: StringToNumber_def Let_def dec non split: option.splits)
qed

lemma foldl_add_exact:
  "exact_sums acc its \<Longrightarrow>
   foldl (\<lambda>sum it. Number_add sum (item_price it)) (Fin acc) its =
     Fin (acc + sum_list (map (\<lambda>it. mathematical_value (item_price it)) its))"
proof (induction its arbitrary: acc)
  case Nil
  then show ?case by simp
next
  case (Cons it its)
  then have fin: "is_finite (item_price it)"
    and dbl: "is_double (acc + mathematical_value (item_price it))"
    and rest: "exact_sums (acc + mathematical_value (item_price it)) its"
    by simp_all
  have "Number_add (Fin acc) (item_price it) = Fin (acc + mathematical_value (item_price it))"
    using fin number_of_exact [OF dbl]
    by (cases "item_price it") (simp_all add: Number_add_def is_finite_def mathematical_value_def)
  then show ?case
    using Cons.IH [OF rest] by (simp add: add.assoc)
qed

section \<open>Lemmas about \<open>toFixed\<close>\<close>

lemma decimal_small: "n < 10 \<Longrightarrow> decimal n = [digit_char n]"
  by (simp add: decimal.simps)

lemma decimal_step: "10 \<le> n \<Longrightarrow> decimal n = decimal (n div 10) @ [digit_char (n mod 10)]"
  by (subst decimal.simps) simp

lemma decimal_not_Nil: "decimal n \<noteq> []"
  by (subst decimal.simps) simp

lemma decimal_zero: "decimal 0 = utf16 ''0''"
  by (simp add: decimal_small digit_char_def utf16_def)

lemma decimal_hundreds:
  assumes "100 \<le> n"
  shows "decimal n = decimal (n div 100) @ [digit_char (n div 10 mod 10), digit_char (n mod 10)]"
proof -
  have "10 \<le> n div 10" using assms by simp
  then have "decimal (n div 10) = decimal (n div 10 div 10) @ [digit_char (n div 10 mod 10)]"
    by (rule decimal_step)
  moreover have "n div 10 div 10 = n div 100"
    by (simp add: div_mult2_eq [symmetric])
  moreover have "decimal n = decimal (n div 10) @ [digit_char (n mod 10)]"
    using assms by (simp add: decimal_step)
  ultimately show ?thesis by simp
qed

text \<open>
  The padding and splitting of \<open>toFixed\<close> with two fraction digits: the integer part is
  the decimal representation of \<open>n div 100\<close>, the fraction the two last digits of \<open>n\<close>.
\<close>

lemma pad_split:
  fixes n :: nat
  defines "m \<equiv> (if n = 0 then utf16 ''0'' else decimal n)"
  defines "k \<equiv> length m"
  defines "mz \<equiv> (if k \<le> 2 then replicate (2 + 1 - k) (digit_char 0) else []) @ m"
  defines "kz \<equiv> (if k \<le> 2 then 2 + 1 else k)"
  shows "take (kz - 2) mz @ utf16 ''.'' @ drop (kz - 2) mz =
         decimal (n div 100) @ utf16 ''.'' @ [digit_char (n div 10 mod 10), digit_char (n mod 10)]"
proof -
  have m: "m = decimal n"
    by (simp add: m_def decimal_zero)
  consider "n < 10" | "10 \<le> n" "n < 100" | "100 \<le> n" by linarith
  then show ?thesis
  proof cases
    case 1
    then have "m = [digit_char n]" by (simp add: m decimal_small)
    then show ?thesis
      using 1 by (simp add: mz_def kz_def k_def decimal_small numeral_3_eq_3 numeral_2_eq_2)
  next
    case 2
    then have "n div 10 < 10" by simp
    then have "m = [digit_char (n div 10), digit_char (n mod 10)]"
      using 2 by (simp add: m decimal_step decimal_small)
    then show ?thesis
      using 2 by (simp add: mz_def kz_def k_def decimal_small)
  next
    case 3
    then have "m = decimal (n div 100) @ [digit_char (n div 10 mod 10), digit_char (n mod 10)]"
      by (simp add: m decimal_hundreds)
    then show ?thesis
      by (simp add: mz_def kz_def k_def decimal_not_Nil)
  qed
qed

lemma toFixed_two_decimals:
  assumes "is_finite x" and "\<bar>mathematical_value x\<bar> < 10 ^ 21"
  shows "toFixed x 2 = spec_two_decimals (mathematical_value x)"
  using assms pad_split [of "nat \<lfloor>\<bar>mathematical_value x\<bar> * 100 + 1 / 2\<rfloor>"]
  by (simp add: toFixed_def spec_two_decimals_def Let_def)

lemma toFixed_NaN: "toFixed NaN f = utf16 ''NaN''"
  by (simp add: toFixed_def is_finite_def Number_toString_def)

lemma spec_two_decimals_0: "spec_two_decimals 0 = utf16 ''0.00''"
  by (simp add: spec_two_decimals_def decimal_small digit_char_def utf16_def)

text \<open>
  The integer \<open>n\<close> of \<open>toFixed\<close> is as ECMAScript asks: \<open>n / 100\<close> is as close to the value
  as possible, and of two such integers \<open>n\<close> is the larger.
\<close>

lemma half_up_nearest:
  fixes v :: rat
  assumes "0 \<le> v"
  defines "n \<equiv> nat \<lfloor>v * 100 + 1 / 2\<rfloor>"
  shows "\<bar>of_nat n / 100 - v\<bar> \<le> \<bar>of_int m / 100 - v\<bar>"
    and "\<bar>of_int m / 100 - v\<bar> = \<bar>of_nat n / 100 - v\<bar> \<Longrightarrow> m \<le> int n"
proof -
  define y where "y = v * 100"
  define k where "k = \<lfloor>y + 1 / 2\<rfloor>"
  have k0: "0 \<le> k"
    using assms(1) by (simp add: k_def y_def)
  have n: "int n = k"
    using k0 by (simp add: n_def k_def y_def)
  have lo: "of_int k \<le> y + 1 / 2" and hi: "y + 1 / 2 < of_int k + 1"
    unfolding k_def by linarith+
  have nk: "(of_nat n :: rat) = of_int k"
    using n by (metis of_int_of_nat_eq)
  have far: "1 / 2 \<le> \<bar>of_int m - y\<bar>" if "m \<noteq> k"
  proof -
    from that consider "m \<le> k - 1" | "k + 1 \<le> m" by linarith
    then show ?thesis
    proof cases
      case 1
      then have "(of_int m :: rat) \<le> of_int k - 1"
        by (metis of_int_le_iff of_int_diff of_int_1)
      with lo show ?thesis by linarith
    next
      case 2
      then have "(of_int k :: rat) + 1 \<le> of_int m"
        by (metis of_int_le_iff of_int_add of_int_1)
      with hi show ?thesis by linarith
    qed
  qed
  have near: "\<bar>of_int k - y\<bar> \<le> 1 / 2"
    using lo hi by linarith
  have scale: "\<bar>of_int j / 100 - v\<bar> = \<bar>of_int j - y\<bar> / 100" for j :: int
    by (simp add: y_def abs_if field_simps)
  show "\<bar>of_nat n / 100 - v\<bar> \<le> \<bar>of_int m / 100 - v\<bar>"
  proof (cases "m = k")
    case True
    then show ?thesis by (simp add: nk)
  next
    case False
    from far [OF this] near show ?thesis
      unfolding nk scale by simp
  qed
  show "m \<le> int n" if eq: "\<bar>of_int m / 100 - v\<bar> = \<bar>of_nat n / 100 - v\<bar>"
  proof (cases "m = k")
    case True
    then show ?thesis by (simp add: n)
  next
    case False
    from eq have e: "\<bar>of_int m - y\<bar> = \<bar>of_int k - y\<bar>"
      unfolding nk scale by simp
    with far [OF False] near have h: "\<bar>of_int k - y\<bar> = 1 / 2"
      by linarith
    with hi have "of_int k - y = 1 / 2"
      by linarith
    with e have "of_int m - y = 1 / 2 \<or> of_int m - y = - (1 / 2)"
      by linarith
    then have "(of_int m :: rat) \<le> of_int k"
      using \<open>of_int k - y = 1 / 2\<close> by linarith
    then show ?thesis
      by (simp add: n)
  qed
qed

text \<open>\<open>(1e21).toFixed(2)\<close> falls back to \<open>Number::toString\<close>, which prints an exponent.\<close>

lemma Number_toString_1e21: "Number_toString (Fin 1000000000000000000000) = utf16 ''1e+21''"
proof -
  have l10: "ilog10 1000000000000000000000 = 21"
    by (simp add: ilog10_def decimal.simps)
  have c: "digit_candidates 1000000000000000000000 1 = [(22, 1), (22, 1)]"
    using number_of_1e21 number_of_1e22 by (simp add: digit_candidates_def l10 pow10_def)
  have "shortest_digits 1000000000000000000000 1 (Suc fuel) = (22, 1, 1)" for fuel
    using c by (simp add: closer_def)
  from this [of 16] show ?thesis
    by (simp add: Number_toString_def positive_toString_def Let_def decimal.simps utf16_def
        digit_char_def)
qed

lemma toFixed_1e21: "toFixed (Fin 1000000000000000000000) 2 = utf16 ''1e+21''"
  using number_of_1e21
  by (simp add: toFixed_def is_finite_def mathematical_value_def Number_toString_1e21)

lemma toFixed_scenario:
  "toFixed (Fin (3383329220062085 / 1125899906842624)) 2 = utf16 ''3.00''"
  by (simp add: toFixed_def is_finite_def mathematical_value_def utf16_def digit_char_def
      decimal.simps Let_def)

lemma newTotal_scenario:
  "newTotal [\<lparr>item_id = utf16 ''1'', item_price = number_of (1005 / 1000),
               item_data = [utf16 ''name'' \<mapsto> Primitive (JString (utf16 ''A''))]\<rparr>,
             \<lparr>item_id = utf16 ''2'', item_price = Fin 2,
               item_data = [utf16 ''name'' \<mapsto> Primitive (JString (utf16 ''B''))]\<rparr>]
   = Fin (3383329220062085 / 1125899906842624)"
  using number_of_1_005 add_0_1_005 add_1_005_2 by (simp add: newTotal_def)

section \<open>The page's sum and the sum of the prices\<close>

lemma Number_add_is_binary64: "is_binary64 (Number_add x y)"
  by (auto simp: Number_add_def number_of_binary64)

lemma foldl_add_is_binary64:
  "is_binary64 acc \<Longrightarrow> is_binary64 (foldl (\<lambda>sum it. Number_add sum (item_price it)) acc its)"
  by (induction its arbitrary: acc) (simp_all add: Number_add_is_binary64)

lemma newTotal_is_binary64: "is_binary64 (newTotal its)"
  unfolding newTotal_def by (rule foldl_add_is_binary64) simp

text \<open>Outside its fixed-point range \<open>toFixed\<close> is \<open>Number::toString\<close>.\<close>

lemma toFixed_large:
  assumes "is_binary64 x" and "\<not> (is_finite x \<and> \<bar>mathematical_value x\<bar> < 10 ^ 21)"
  shows "toFixed x f = Number_toString x"
proof (cases "is_finite x")
  case False
  then show ?thesis by (simp add: toFixed_def)
next
  case True
  with assms(2) have big: "10 ^ 21 \<le> \<bar>mathematical_value x\<bar>" by simp
  from True obtain q where x: "x = Fin q \<or> x = NegZero"
    by (cases x) (simp_all add: is_finite_def)
  from big have "x \<noteq> NegZero" by (auto simp: mathematical_value_def)
  with x have x: "x = Fin q" by simp
  with big have q: "10 ^ 21 \<le> \<bar>q\<bar>" by (simp add: mathematical_value_def)
  from assms(1) x have "is_double q" by (simp add: is_binary64_def)
  then have "is_double \<bar>q\<bar>" by (simp add: abs_if is_double_minus)
  then have r: "number_of \<bar>q\<bar> = Fin \<bar>q\<bar>" by (rule number_of_exact)
  from q have nz: "q \<noteq> 0" by auto
  show ?thesis
    using q nz r
    by (simp add: toFixed_def x is_finite_def mathematical_value_def Number_toString_def abs_if)
qed

text \<open>Every binary64 value is an integer multiple of \<open>2 ^ -1074\<close>.\<close>

lemma double_multiple:
  assumes "is_double q"
  shows "\<exists>k :: int. q = of_int k * pow2 (- 1074)"
proof (cases "q = 0")
  case True
  then show ?thesis by (intro exI [of _ 0]) simp
next
  case False
  define a where "a = \<bar>q\<bar>"
  define E where "E = max (ilog2 a) (- 1022)"
  from False assms have int: "\<lfloor>a / ulp a\<rfloor> = \<lceil>a / ulp a\<rceil>"
    unfolding is_double_def a_def by blast
  define j where "j = \<lfloor>a / ulp a\<rfloor>"
  have j: "a / ulp a = of_int j"
    unfolding j_def using int
    by (metis floor_le_ceiling ceiling_correct floor_correct order_antisym of_int_floor_le
        le_of_int_ceiling)
  have u: "ulp a = pow2 (E - 52)" by (simp add: ulp_def E_def)
  have "0 \<le> E + 1022" by (simp add: E_def)
  then have "E - 52 = - 1074 + int (nat (E + 1022))" by simp
  then have "pow2 (E - 52) = pow2 (- 1074) * 2 ^ nat (E + 1022)"
    by (metis pow2_shift)
  with u have u': "ulp a = pow2 (- 1074) * 2 ^ nat (E + 1022)" by simp
  have "ulp a \<noteq> 0" using ulp_pos [of a] by simp
  with j have "a = of_int j * ulp a" by (simp add: field_simps)
  then have a: "a = of_int (j * 2 ^ nat (E + 1022)) * pow2 (- 1074)"
    by (simp add: u')
  show ?thesis
  proof (cases "q < 0")
    case True
    then have "q = - a" by (simp add: a_def)
    then have "q = of_int (- (j * 2 ^ nat (E + 1022))) * pow2 (- 1074)"
      using a by simp
    then show ?thesis by blast
  next
    case False
    then have "q = a" by (simp add: a_def)
    with a show ?thesis by blast
  qed
qed

lemma subnormal_is_double:
  assumes "0 < x" and "x = of_int k * pow2 (- 1074)" and "ilog2 x < - 1022"
  shows "is_double x"
proof -
  have u: "ulp x = pow2 (- 1074)"
    using assms(3) by (simp add: ulp_def max_def)
  have "pow2 (- 1074) \<noteq> 0" using pow2_pos [of "- 1074"] by simp
  then have "of_int k * pow2 (- 1074) / pow2 (- 1074) = (of_int k :: rat)"
    by simp
  then have "x / ulp x = of_int k"
    unfolding u by (simp only: assms(2))
  then have int: "\<lfloor>x / ulp x\<rfloor> = \<lceil>x / ulp x\<rceil>" by simp
  from ilog2_bounds [OF assms(1)] have "x < pow2 (ilog2 x + 1)" by simp
  also have "\<dots> \<le> pow2 1024" by (rule pow2_mono) (use assms(3) in simp)
  finally have "x < pow2 1024" .
  then show ?thesis
    using assms(1) int by (simp add: is_double_def)
qed

lemma number_of_nonneg:
  assumes "0 \<le> x"
  shows "number_of x = PosInf \<or> (\<exists>r. number_of x = Fin r \<and> 0 \<le> r)"
proof (cases "x = 0")
  case True
  then show ?thesis by (simp add: number_of_def)
next
  case False
  with assms have pos: "0 < \<bar>x\<bar>" and nn: "\<not> x < 0" by simp_all
  from significand_bounds(1) [OF pos] have "0 \<le> round_half_even (\<bar>x\<bar> / ulp \<bar>x\<bar>)" .
  then have "0 \<le> of_int (round_half_even (\<bar>x\<bar> / ulp \<bar>x\<bar>)) * ulp \<bar>x\<bar>"
    using ulp_pos [of "\<bar>x\<bar>"] by simp
  then show ?thesis
    using False nn by (simp add: number_of_def Let_def)
qed

text \<open>
  The sum of two binary64 values that are not negative is rounded with a relative error
  of at most \<open>2 ^ -53\<close>.
\<close>

lemma add_relative_error:
  assumes a: "is_double a" "0 \<le> a" and b: "is_double b" "0 \<le> b"
    and r: "number_of (a + b) = Fin r"
  shows "\<bar>r - (a + b)\<bar> \<le> (a + b) / 2 ^ 53"
proof (cases "a + b = 0")
  case True
  with r show ?thesis by (simp add: number_of_def)
next
  case False
  define x where "x = a + b"
  have xpos: "0 < x" using False a(2) b(2) by (simp add: x_def)
  have absx: "\<bar>x\<bar> = x" using xpos by simp
  show ?thesis
  proof (cases "- 1022 \<le> ilog2 x")
    case True
    then have "ulp x = pow2 (ilog2 x - 52)" by (simp add: ulp_def max_def)
    moreover have "ilog2 x = (ilog2 x - 52) + int 52" by simp
    then have "pow2 (ilog2 x) = pow2 (ilog2 x - 52) * 2 ^ 52" by (metis pow2_shift)
    ultimately have "pow2 (ilog2 x) = ulp x * 2 ^ 52" by simp
    moreover from ilog2_bounds [OF xpos] have "pow2 (ilog2 x) \<le> x" by simp
    ultimately have "ulp x * 2 ^ 52 \<le> x" by simp
    then have "ulp x / 2 \<le> x / 2 ^ 53" by simp
    moreover from number_of_near [OF r] have "\<bar>r - x\<bar> \<le> ulp x / 2"
      by (simp add: x_def [symmetric] absx)
    ultimately show ?thesis by (simp add: x_def)
  next
    case False
    then have sub: "ilog2 x < - 1022" by simp
    from double_multiple [OF a(1)] double_multiple [OF b(1)]
    obtain k l :: int where "a = of_int k * pow2 (- 1074)" "b = of_int l * pow2 (- 1074)"
      by blast
    then have "x = of_int (k + l) * pow2 (- 1074)"
      by (simp add: x_def distrib_right)
    with xpos have "is_double x" using sub by (rule subnormal_is_double)
    then have "number_of x = Fin x" by (rule number_of_exact)
    with r have "r = x" by (simp add: x_def)
    then show ?thesis using xpos by (simp add: x_def)
  qed
qed

lemma Number_add_finite:
  "is_finite y \<Longrightarrow> Number_add (Fin a) y = number_of (a + mathematical_value y)"
  by (cases y) (simp_all add: Number_add_def is_finite_def mathematical_value_def)

lemma foldl_add_PosInf:
  "\<forall>it \<in> set its. is_finite (item_price it) \<Longrightarrow>
   foldl (\<lambda>sum it. Number_add sum (item_price it)) PosInf its = PosInf"
proof (induction its)
  case Nil
  then show ?case by simp
next
  case (Cons it its)
  then have "is_finite (item_price it)" by simp
  then have "Number_add PosInf (item_price it) = PosInf"
    by (cases "item_price it") (simp_all add: Number_add_def is_finite_def)
  with Cons show ?case by simp
qed

lemma finite_price_double:
  "is_binary64 y \<Longrightarrow> is_finite y \<Longrightarrow> is_double (mathematical_value y)"
  by (cases y) (simp_all add: is_binary64_def is_finite_def mathematical_value_def)

text \<open>
  The page's sum of \<open>n\<close> binary64 prices that are not negative lies within the factors
  \<open>(1 - 2 ^ -53) ^ n\<close> and \<open>(1 + 2 ^ -53) ^ n\<close> of their mathematical sum.
\<close>

lemma foldl_add_bound:
  assumes "is_double a" and "0 \<le> a"
    and "\<forall>it \<in> set its. is_binary64 (item_price it) \<and> is_finite (item_price it)
           \<and> 0 \<le> mathematical_value (item_price it)"
    and "is_finite (foldl (\<lambda>sum it. Number_add sum (item_price it)) (Fin a) its)"
  shows "(1 - 1 / 2 ^ 53) ^ length its
           * (a + sum_list (map (\<lambda>it. mathematical_value (item_price it)) its))
         \<le> mathematical_value (foldl (\<lambda>sum it. Number_add sum (item_price it)) (Fin a) its)
       \<and> mathematical_value (foldl (\<lambda>sum it. Number_add sum (item_price it)) (Fin a) its)
         \<le> (1 + 1 / 2 ^ 53) ^ length its
           * (a + sum_list (map (\<lambda>it. mathematical_value (item_price it)) its))"
  using assms
proof (induction its arbitrary: a)
  case Nil
  then show ?case by (simp add: mathematical_value_def)
next
  case (Cons it its)
  let ?f = "\<lambda>sum it. Number_add sum (item_price it)"
  define p where "p = mathematical_value (item_price it)"
  define T where "T = sum_list (map (\<lambda>it. mathematical_value (item_price it)) its)"
  from Cons.prems(3) have fin: "is_finite (item_price it)" and bin: "is_binary64 (item_price it)"
    and p0: "0 \<le> p" and rest: "\<forall>it \<in> set its. is_binary64 (item_price it)
           \<and> is_finite (item_price it) \<and> 0 \<le> mathematical_value (item_price it)"
    by (simp_all add: p_def)
  have pd: "is_double p" unfolding p_def using bin fin by (rule finite_price_double)
  have T0: "0 \<le> T" unfolding T_def using rest by (intro sum_list_nonneg) auto
  have step: "Number_add (Fin a) (item_price it) = number_of (a + p)"
    using fin by (simp add: Number_add_finite p_def)
  have ap0: "0 \<le> a + p" using Cons.prems(2) p0 by simp
  from number_of_nonneg [OF ap0] consider "number_of (a + p) = PosInf"
    | r where "number_of (a + p) = Fin r" "0 \<le> r" by blast
  then show ?case
  proof cases
    case 1
    have "foldl ?f (Fin a) (it # its) = PosInf"
      using rest by (simp add: step 1 foldl_add_PosInf)
    with Cons.prems(4) show ?thesis by (simp add: is_finite_def)
  next
    case 2
    have rd: "is_double r" using 2(1) by (rule number_of_is_double)
    have err: "\<bar>r - (a + p)\<bar> \<le> (a + p) / 2 ^ 53"
      using Cons.prems(1,2) pd p0 2(1) by (rule add_relative_error)
    have fold: "foldl ?f (Fin a) (it # its) = foldl ?f (Fin r) its"
      by (simp add: step 2(1))
    with Cons.prems(4) have finr: "is_finite (foldl ?f (Fin r) its)" by simp
    from Cons.IH [OF rd 2(2) rest finr]
    have lo: "(1 - 1 / 2 ^ 53) ^ length its * (r + T) \<le> mathematical_value (foldl ?f (Fin r) its)"
      and hi: "mathematical_value (foldl ?f (Fin r) its) \<le> (1 + 1 / 2 ^ 53) ^ length its * (r + T)"
      by (simp_all add: T_def)
    define u :: rat where "u = 1 / 2 ^ 53"
    have u1: "0 \<le> 1 - u" and u2: "0 \<le> 1 + u" by (simp_all add: u_def)
    from err have "\<bar>r - (a + p)\<bar> \<le> (a + p) * u" by (simp add: u_def)
    then have "- ((a + p) * u) \<le> r - (a + p)" and "r - (a + p) \<le> (a + p) * u"
      by (simp_all add: abs_le_iff)
    then have rlo: "(1 - u) * (a + p) \<le> r" and rhi: "r \<le> (1 + u) * (a + p)"
      by (simp_all add: algebra_simps)
    have "0 \<le> u * T" using T0 by (simp add: u_def)
    then have "(1 - u) * (a + p + T) \<le> r + T"
      using rlo by (simp add: algebra_simps)
    then have "(1 - u) ^ length its * ((1 - u) * (a + p + T)) \<le> (1 - u) ^ length its * (r + T)"
      using u1 by (intro mult_left_mono zero_le_power)
    with lo have L: "(1 - 1 / 2 ^ 53) ^ length (it # its) * (a + (p + T))
                       \<le> mathematical_value (foldl ?f (Fin r) its)"
      unfolding u_def [symmetric] by (simp add: mult.assoc add.assoc mult.left_commute)
    have "0 \<le> u * T" using T0 by (simp add: u_def)
    then have "r + T \<le> (1 + u) * (a + p + T)"
      using rhi by (simp add: algebra_simps)
    then have "(1 + u) ^ length its * (r + T) \<le> (1 + u) ^ length its * ((1 + u) * (a + p + T))"
      using u2 by (intro mult_left_mono zero_le_power)
    with hi have H: "mathematical_value (foldl ?f (Fin r) its)
                       \<le> (1 + 1 / 2 ^ 53) ^ length (it # its) * (a + (p + T))"
      unfolding u_def [symmetric] by (simp add: mult.assoc add.assoc mult.left_commute)
    from L H show ?thesis
      unfolding fold by (simp add: p_def T_def)
  qed
qed

lemma newTotal_bound:
  assumes "\<forall>it \<in> set its. is_binary64 (item_price it) \<and> is_finite (item_price it)
           \<and> 0 \<le> mathematical_value (item_price it)"
    and "is_finite (newTotal its)"
  shows "(1 - 1 / 2 ^ 53) ^ length its
           * sum_list (map (\<lambda>it. mathematical_value (item_price it)) its)
         \<le> mathematical_value (newTotal its)
       \<and> mathematical_value (newTotal its)
         \<le> (1 + 1 / 2 ^ 53) ^ length its
           * sum_list (map (\<lambda>it. mathematical_value (item_price it)) its)"
  using foldl_add_bound [of 0 its] assms by (simp add: newTotal_def)

lemma newTotal_snoc: "newTotal (L @ [it]) = Number_add (newTotal L) (item_price it)"
  by (simp add: newTotal_def)

text \<open>
  When the two bounds of the page's sum round to the same hundredth, the total is the
  two-decimal form of the mathematical sum of the prices.
\<close>

lemma toFixed_newTotal_sum:
  assumes H: "\<forall>it \<in> set L. is_binary64 (item_price it) \<and> is_finite (item_price it)
                \<and> 0 \<le> mathematical_value (item_price it)"
    and fin: "is_finite (newTotal L)"
    and agree: "\<lfloor>(1 - 1 / 2 ^ 53) ^ length L
                   * sum_list (map (\<lambda>it. mathematical_value (item_price it)) L) * 100 + 1 / 2\<rfloor>
              = \<lfloor>(1 + 1 / 2 ^ 53) ^ length L
                   * sum_list (map (\<lambda>it. mathematical_value (item_price it)) L) * 100 + 1 / 2\<rfloor>"
    and small: "(1 + 1 / 2 ^ 53) ^ length L
                   * sum_list (map (\<lambda>it. mathematical_value (item_price it)) L) < 10 ^ 21"
  shows "toFixed (newTotal L) 2 =
           spec_two_decimals (sum_list (map (\<lambda>it. mathematical_value (item_price it)) L))"
proof -
  define T where "T = sum_list (map (\<lambda>it. mathematical_value (item_price it)) L)"
  define S where "S = mathematical_value (newTotal L)"
  define lo :: rat where "lo = (1 - 1 / 2 ^ 53) ^ length L"
  define hi :: rat where "hi = (1 + 1 / 2 ^ 53) ^ length L"
  have T0: "0 \<le> T"
    unfolding T_def using H by (intro sum_list_nonneg) auto
  have lo0: "0 \<le> lo" and lo1: "lo \<le> 1"
    unfolding lo_def by (simp_all add: power_le_one)
  have hi1: "1 \<le> hi"
    unfolding hi_def by (intro one_le_power) simp
  from newTotal_bound [OF H fin] have b1: "lo * T \<le> S" and b2: "S \<le> hi * T"
    by (simp_all add: lo_def hi_def T_def S_def)
  have t1: "lo * T \<le> T"
    using mult_right_mono [OF lo1 T0] by simp
  have t2: "T \<le> hi * T"
    using mult_right_mono [OF hi1 T0] by simp
  have S0: "0 \<le> S"
    using b1 lo0 T0 by (meson mult_nonneg_nonneg order_trans)
  from agree have ag: "\<lfloor>lo * T * 100 + 1 / 2\<rfloor> = \<lfloor>hi * T * 100 + 1 / 2\<rfloor>"
    by (simp add: lo_def hi_def T_def)
  have "\<lfloor>lo * T * 100 + 1 / 2\<rfloor> \<le> \<lfloor>S * 100 + 1 / 2\<rfloor>"
    using b1 by (intro floor_mono) simp
  moreover have "\<lfloor>S * 100 + 1 / 2\<rfloor> \<le> \<lfloor>hi * T * 100 + 1 / 2\<rfloor>"
    using b2 by (intro floor_mono) simp
  moreover have "\<lfloor>lo * T * 100 + 1 / 2\<rfloor> \<le> \<lfloor>T * 100 + 1 / 2\<rfloor>"
    using t1 by (intro floor_mono) simp
  moreover have "\<lfloor>T * 100 + 1 / 2\<rfloor> \<le> \<lfloor>hi * T * 100 + 1 / 2\<rfloor>"
    using t2 by (intro floor_mono) simp
  ultimately have fl: "\<lfloor>S * 100 + 1 / 2\<rfloor> = \<lfloor>T * 100 + 1 / 2\<rfloor>"
    using ag by linarith
  have eq: "spec_two_decimals S = spec_two_decimals T"
    using S0 T0 fl by (simp add: spec_two_decimals_def abs_of_nonneg not_less)
  from small b2 have "S < 10 ^ 21"
    by (simp add: hi_def T_def)
  with S0 have "\<bar>mathematical_value (newTotal L)\<bar> < 10 ^ 21"
    by (simp add: S_def)
  from toFixed_two_decimals [OF fin this] eq show ?thesis
    by (simp add: S_def T_def)
qed

subsection \<open>More values\<close>

lemma number_of_0_1: "number_of (1 / 10) = Fin (3602879701896397 / 36028797018963968)"
proof -
  have "ilog2 (1 / 10) = - 4"
    by (simp add: ilog2_def bitlen.simps)
  then show ?thesis
    by (simp add: number_of_def ulp_def pow2_def round_half_even_def Let_def)
qed

lemma number_of_0_2: "number_of (2 / 10) = Fin (3602879701896397 / 18014398509481984)"
proof -
  have "ilog2 (1 / 5) = - 3"
    by (simp add: ilog2_def bitlen.simps)
  then show ?thesis
    by (simp add: number_of_def ulp_def pow2_def round_half_even_def Let_def)
qed

text \<open>\<open>0.1 + 0.2\<close> is a tie between two binary64 values and goes to the even one.\<close>

lemma add_0_1_0_2:
  "Number_add (Fin (3602879701896397 / 36028797018963968))
     (Fin (3602879701896397 / 18014398509481984)) =
   Fin (1351079888211149 / 4503599627370496)"
proof -
  have "ilog2 (10808639105689191 / 36028797018963968) = - 2"
    by (simp add: ilog2_def bitlen.simps)
  then have "number_of (10808639105689191 / 36028797018963968) =
      Fin (1351079888211149 / 4503599627370496)"
    by (simp add: number_of_def ulp_def pow2_def round_half_even_def Let_def)
  then show ?thesis
    by (simp add: Number_add_def mathematical_value_def)
qed

lemma newTotal_0_1_0_2:
  "newTotal [\<lparr>item_id = utf16 ''b1'', item_price = number_of (1 / 10), item_data = Map.empty\<rparr>,
             \<lparr>item_id = utf16 ''b2'', item_price = number_of (2 / 10), item_data = Map.empty\<rparr>]
   = Fin (1351079888211149 / 4503599627370496)"
proof -
  have "is_double (3602879701896397 / 36028797018963968)"
    using number_of_is_double [OF number_of_0_1] .
  then have "number_of (3602879701896397 / 36028797018963968) =
      Fin (3602879701896397 / 36028797018963968)"
    by (rule number_of_exact)
  then have "Number_add (Fin 0) (Fin (3602879701896397 / 36028797018963968)) =
      Fin (3602879701896397 / 36028797018963968)"
    by (simp add: Number_add_def mathematical_value_def)
  then show ?thesis
    using number_of_0_1 number_of_0_2 add_0_1_0_2 by (simp add: newTotal_def)
qed

lemma spec_two_decimals_5_5: "spec_two_decimals (11 / 2) = utf16 ''5.50''"
  by (simp add: spec_two_decimals_def decimal_small digit_char_def utf16_def)

lemma is_double_11_2: "is_double (11 / 2)"
proof -
  have "ilog2 (11 / 2) = 2"
    by (simp add: ilog2_def bitlen.simps)
  then show ?thesis
    by (simp add: is_double_def ulp_def pow2_def)
qed

lemma is_double_1_8: "is_double (1 / 8)"
proof -
  have "ilog2 (1 / 8) = - 3"
    by (simp add: ilog2_def bitlen.simps)
  then show ?thesis
    by (simp add: is_double_def ulp_def pow2_def)
qed

lemma newTotal_1_8:
  "newTotal [\<lparr>item_id = utf16 ''t1'', item_price = Fin (1 / 8), item_data = Map.empty\<rparr>] = Fin (1 / 8)"
  using number_of_exact [OF is_double_1_8]
  by (simp add: newTotal_def Number_add_def mathematical_value_def)

lemma newTotal_minus_1_8:
  "newTotal [\<lparr>item_id = utf16 ''t2'', item_price = Fin (- (1 / 8)), item_data = Map.empty\<rparr>]
   = Fin (- (1 / 8))"
proof -
  have "is_double (- (1 / 8))"
    using is_double_1_8 by (simp only: is_double_minus)
  from number_of_exact [OF this] show ?thesis
    by (simp add: newTotal_def Number_add_def mathematical_value_def)
qed

text \<open>
  The prices \<open>0.0625\<close> and \<open>0.06249999999999999\<close>: their mathematical sum lies below
  \<open>0.125\<close>, the page's sum is \<open>0.125\<close>.
\<close>

lemma is_double_below_1_16: "is_double (9007199254740991 / 144115188075855872)"
proof -
  have "ilog2 (9007199254740991 / 144115188075855872) = - 5"
    by (simp add: ilog2_def bitlen.simps)
  then show ?thesis
    by (simp add: is_double_def ulp_def pow2_def)
qed

lemma is_double_1_16: "is_double (1 / 16)"
proof -
  have "ilog2 (1 / 16) = - 4"
    by (simp add: ilog2_def bitlen.simps)
  then show ?thesis
    by (simp add: is_double_def ulp_def pow2_def)
qed

lemma number_of_below_1_8: "number_of (18014398509481983 / 144115188075855872) = Fin (1 / 8)"
proof -
  have "ilog2 (18014398509481983 / 144115188075855872) = - 4"
    by (simp add: ilog2_def bitlen.simps)
  then show ?thesis
    by (simp add: number_of_def ulp_def pow2_def round_half_even_def Let_def)
qed

lemma newTotal_rounded_up:
  "newTotal [\<lparr>item_id = utf16 ''a1'', item_price = Fin (1 / 16), item_data = Map.empty\<rparr>,
             \<lparr>item_id = utf16 ''a2'', item_price = Fin (9007199254740991 / 144115188075855872),
              item_data = Map.empty\<rparr>]
   = Fin (1 / 8)"
proof -
  have "number_of (1 / 16) = Fin (1 / 16)"
    using is_double_1_16 by (rule number_of_exact)
  then have "Number_add (Fin 0) (Fin (1 / 16)) = Fin (1 / 16)"
    by (simp add: Number_add_def mathematical_value_def)
  moreover have "Number_add (Fin (1 / 16)) (Fin (9007199254740991 / 144115188075855872))
      = Fin (1 / 8)"
    using number_of_below_1_8 by (simp add: Number_add_def mathematical_value_def)
  ultimately show ?thesis
    by (simp add: newTotal_def)
qed

lemma toFixed_1_8: "toFixed (Fin (1 / 8)) 2 = utf16 ''0.13''"
  using toFixed_two_decimals [of "Fin (1 / 8)"]
  by (simp add: is_finite_def mathematical_value_def spec_two_decimals_def decimal_small
      digit_char_def utf16_def)

lemma spec_two_decimals_below_1_8:
  "spec_two_decimals (1 / 16 + 9007199254740991 / 144115188075855872) = utf16 ''0.12''"
  by (simp add: spec_two_decimals_def decimal_small digit_char_def utf16_def)

section \<open>Lemmas about the add form\<close>

text \<open>
  A valid floating-point number is a StrDecimalLiteral, without white space, and no
  NonDecimalIntegerLiteral.
\<close>

lemma fpn_Infinity: "floating_point_number (utf16 ''Infinity'') = None"
  by (simp add: floating_point_number_def utf16_def isDecimalDigit_def)

lemma fpn_StrUnsigned:
  assumes "floating_point_number u = Some x"
  shows "StrUnsignedDecimalLiteral u = Some (number_of x)"
proof -
  from assms fpn_Infinity have "u \<noteq> utf16 ''Infinity''" by auto
  with assms show ?thesis
    by (auto simp: floating_point_number_def StrUnsignedDecimalLiteral_def Let_def
        split: if_splits option.splits)
qed

lemma pow10_pos: "0 < pow10 e"
  by (simp add: pow10_def)

lemma fpn_nonneg: "floating_point_number u = Some x \<Longrightarrow> 0 \<le> x"
  by (auto simp: floating_point_number_def Let_def pow10_pos less_imp_le
      split: if_splits option.splits)

lemma digit_not_white: "isDecimalDigit c \<Longrightarrow> \<not> isWhiteSpace c"
  by (auto simp: isDecimalDigit_def isWhiteSpace_def)

lemma digit_value_10: "digit_value 10 c = Some d \<Longrightarrow> isDecimalDigit c"
  by (auto simp: digit_value_def isDecimalDigit_def Let_def word_le_nat_alt split: if_splits)

lemma digits_MV_chars: "digits_MV 10 acc ds = Some m \<Longrightarrow> \<forall>c \<in> set ds. isDecimalDigit c"
  by (induction ds arbitrary: acc) (auto split: option.splits dest: digit_value_10)

lemma DecimalDigits_chars: "DecimalDigits ds = Some m \<Longrightarrow> \<forall>c \<in> set ds. \<not> isWhiteSpace c"
  by (auto simp: DecimalDigits_def split: if_splits dest!: digits_MV_chars digit_not_white)

lemma SignedInteger_chars: "SignedInteger t = Some e \<Longrightarrow> \<forall>c \<in> set t. \<not> isWhiteSpace c"
  by (cases t)
    (auto simp: SignedInteger_def isWhiteSpace_def split: if_splits dest!: DecimalDigits_chars)

lemma ExponentPart_chars: "ExponentPart_opt t = Some e \<Longrightarrow> \<forall>c \<in> set t. \<not> isWhiteSpace c"
  by (cases t)
    (auto simp: ExponentPart_opt_def isWhiteSpace_def split: if_splits dest!: SignedInteger_chars)

lemma takeWhile_digits_chars: "\<forall>c \<in> set (takeWhile isDecimalDigit u). \<not> isWhiteSpace c"
  by (auto dest: set_takeWhileD digit_not_white)

lemma fpn_chars:
  assumes "floating_point_number u = Some x"
  shows "\<forall>c \<in> set u. \<not> isWhiteSpace c"
proof -
  define ip where "ip = takeWhile isDecimalDigit u"
  define r1 where "r1 = dropWhile isDecimalDigit u"
  define dot where "dot \<longleftrightarrow> r1 \<noteq> [] \<and> hd r1 = 0x2E"
  define r2 where "r2 = (if dot then tl r1 else r1)"
  define fp where "fp = (if dot then takeWhile isDecimalDigit r2 else [])"
  define r3 where "r3 = (if dot then dropWhile isDecimalDigit r2 else r2)"
  from assms obtain e where e: "ExponentPart_opt r3 = Some e"
    by (auto simp: floating_point_number_def Let_def ip_def r1_def dot_def r2_def fp_def r3_def
        split: if_splits option.splits)
  have u: "u = ip @ r1" by (simp add: ip_def r1_def)
  have r1: "r1 = (if dot then 0x2E # r2 else r2)"
    by (cases r1) (auto simp: r2_def dot_def)
  have r2: "r2 = fp @ r3" by (simp add: fp_def r3_def)
  have "\<forall>c \<in> set ip. \<not> isWhiteSpace c" "\<forall>c \<in> set fp. \<not> isWhiteSpace c"
    using takeWhile_digits_chars by (auto simp: ip_def fp_def)
  moreover have "\<forall>c \<in> set r3. \<not> isWhiteSpace c"
    using e by (rule ExponentPart_chars)
  moreover have "\<not> isWhiteSpace (0x2E :: 16 word)"
    by (simp add: isWhiteSpace_def)
  moreover have "set u = set ip \<union> set r1"
    by (subst u) simp
  moreover have "set r1 \<subseteq> insert 0x2E (set r2)"
    by (subst r1) auto
  moreover have "set r2 = set fp \<union> set r3"
    by (subst r2) simp
  ultimately show ?thesis
    by blast
qed

lemma trim_id: "\<forall>c \<in> set v. \<not> isWhiteSpace c \<Longrightarrow> trim v = v"
proof -
  assume a: "\<forall>c \<in> set v. \<not> isWhiteSpace c"
  have d: "dropWhile isWhiteSpace w = w" if "\<forall>c \<in> set w. \<not> isWhiteSpace c" for w
    using that by (cases w) simp_all
  have "dropWhile isWhiteSpace (rev v) = rev v"
    using a by (intro d) simp
  then show ?thesis
    using d [OF a] by (simp add: trim_def)
qed

lemma valid_chars:
  assumes "valid_floating_point_number v"
  shows "\<forall>c \<in> set v. \<not> isWhiteSpace c"
proof (cases v)
  case Nil
  then show ?thesis by simp
next
  case (Cons c u)
  show ?thesis
  proof (cases "c = 0x2D")
    case True
    with assms Cons obtain x where "floating_point_number u = Some x"
      by (auto simp: valid_floating_point_number_def)
    from fpn_chars [OF this] show ?thesis
      using True Cons by (simp add: isWhiteSpace_def)
  next
    case False
    with assms Cons obtain x where "floating_point_number v = Some x"
      by (auto simp: valid_floating_point_number_def)
    from fpn_chars [OF this] show ?thesis .
  qed
qed

lemma fpn_hd:
  assumes "floating_point_number u = Some x"
  shows "u \<noteq> [] \<and> (isDecimalDigit (hd u) \<or> hd u = 0x2E)"
proof (cases "takeWhile isDecimalDigit u = []")
  case True
  then have "dropWhile isDecimalDigit u = u"
    by (metis takeWhile_dropWhile_id append_Nil)
  with assms True show ?thesis
    by (auto simp: floating_point_number_def Let_def split: if_splits)
next
  case False
  then show ?thesis
    by (cases u) (auto split: if_splits)
qed

lemma fpn_digit_letter:
  assumes "isDecimalDigit d" and "\<not> isDecimalDigit p" and "p \<noteq> 0x2E"
    and "p \<noteq> 0x65" and "p \<noteq> 0x45"
  shows "floating_point_number (d # p # ds) = None"
proof -
  have t: "takeWhile isDecimalDigit (d # p # ds) = [d]"
    and r: "dropWhile isDecimalDigit (d # p # ds) = p # ds"
    using assms(1,2) by simp_all
  have e: "ExponentPart_opt (p # ds) = None"
    using assms(4,5) by (simp add: ExponentPart_opt_def)
  show ?thesis
    unfolding floating_point_number_def t r Let_def
    using assms(3) e by (simp split: option.splits)
qed

lemma fpn_prefix_None:
  assumes "p \<in> {0x62, 0x42, 0x6F, 0x4F, 0x78, 0x58}"
  shows "floating_point_number (0x30 # p # ds) = None"
proof -
  have "isDecimalDigit 0x30" by (simp add: isDecimalDigit_def)
  moreover from assms have "\<not> isDecimalDigit p" "p \<noteq> 0x2E" "p \<noteq> 0x65" "p \<noteq> 0x45"
    by (auto simp: isDecimalDigit_def)
  ultimately show ?thesis by (rule fpn_digit_letter)
qed

lemma valid_NonDecimal:
  assumes "valid_floating_point_number v"
  shows "NonDecimalIntegerLiteral v = None"
proof (cases v)
  case Nil
  then show ?thesis by (simp add: NonDecimalIntegerLiteral_def)
next
  case (Cons z t)
  show ?thesis
  proof (cases t)
    case Nil
    with Cons show ?thesis by (simp add: NonDecimalIntegerLiteral_def)
  next
    case (Cons p ds)
    show ?thesis
    proof (cases "z = 0x30 \<and> p \<in> {0x62, 0x42, 0x6F, 0x4F, 0x78, 0x58}")
      case True
      then have "floating_point_number v = None"
        using \<open>v = z # t\<close> Cons fpn_prefix_None [of p ds] by simp
      with assms True \<open>v = z # t\<close> show ?thesis
        by (simp add: valid_floating_point_number_def)
    next
      case False
      then show ?thesis
        using \<open>v = z # t\<close> Cons by (auto simp: NonDecimalIntegerLiteral_def Let_def)
    qed
  qed
qed

text \<open>
  On a valid floating-point number \<open>Number\<close> and the number field read the same value.
\<close>

lemma valid_StringToNumber:
  assumes "valid_floating_point_number v"
  shows "\<exists>x. 0 \<le> x
           \<and> (hd v = 0x2D \<longrightarrow> floating_point_number (tl v) = Some x
                 \<and> StringToNumber v = negate (number_of x))
           \<and> (hd v \<noteq> 0x2D \<longrightarrow> floating_point_number v = Some x
                 \<and> StringToNumber v = number_of x)"
proof -
  from assms obtain c u where v: "v = c # u"
    by (cases v) (simp_all add: valid_floating_point_number_def)
  have tr: "trim v = v"
    using valid_chars [OF assms] by (rule trim_id)
  have nd: "NonDecimalIntegerLiteral v = None"
    using assms by (rule valid_NonDecimal)
  show ?thesis
  proof (cases "c = 0x2D")
    case True
    with assms v obtain x where x: "floating_point_number u = Some x"
      by (auto simp: valid_floating_point_number_def)
    have "StrDecimalLiteral v = Some (negate (number_of x))"
      using True v fpn_StrUnsigned [OF x] by (simp add: StrDecimalLiteral_def)
    then have "StringToNumber v = negate (number_of x)"
      unfolding StringToNumber_def Let_def tr nd using v by simp
    with x True v fpn_nonneg [OF x] show ?thesis by auto
  next
    case False
    with assms v obtain x where x: "floating_point_number v = Some x"
      by (auto simp: valid_floating_point_number_def)
    from fpn_hd [OF x] v have "c \<noteq> 0x2B"
      by (auto simp: isDecimalDigit_def)
    then have "StrDecimalLiteral v = Some (number_of x)"
      using False v fpn_StrUnsigned [OF x] by (simp add: StrDecimalLiteral_def)
    then have "StringToNumber v = number_of x"
      unfolding StringToNumber_def Let_def tr nd using v by simp
    with x False v fpn_nonneg [OF x] show ?thesis by auto
  qed
qed

text \<open>
  A price that converts to a number and that the number field lets through is a Number
  that is not below 0.
\<close>

lemma valid_price_ok:
  assumes "valid_floating_point_number v" and "\<not> rangeUnderflow v"
    and "convert_to_number v \<noteq> None"
  shows "spec_price_ok (StringToNumber v)"
proof -
  from assms(1) obtain c u where v: "v = c # u"
    by (cases v) (simp_all add: valid_floating_point_number_def)
  from valid_StringToNumber [OF assms(1)] obtain x where x0: "0 \<le> x"
    and neg: "hd v = 0x2D \<Longrightarrow> floating_point_number (tl v) = Some x
                 \<and> StringToNumber v = negate (number_of x)"
    and pos: "hd v \<noteq> 0x2D \<Longrightarrow> floating_point_number v = Some x
                 \<and> StringToNumber v = number_of x"
    by blast
  have fx: "(if c = 0x2D then floating_point_number u else floating_point_number v) = Some x"
    using neg pos v by (cases "c = 0x2D") simp_all
  from assms(3) obtain r where r: "number_of x = Fin r"
    using v fx by (auto simp: convert_to_number_def split: number.splits if_splits)
  then have conv: "convert_to_number v = Some (Fin (if c = 0x2D then - r else r))"
    using v fx by (auto simp: convert_to_number_def split: if_splits)
  from number_of_nonneg [OF x0] r have r0: "0 \<le> r"
    by auto
  show ?thesis
  proof (cases "c = 0x2D")
    case True
    from assms(2) conv True have "\<not> - r < 0"
      by (simp add: rangeUnderflow_def)
    with r0 have "r = 0"
      by simp
    moreover from neg True v have "StringToNumber v = negate (number_of x)"
      by simp
    ultimately show ?thesis
      using r by (simp add: negate_def spec_price_ok_def)
  next
    case False
    with pos v have "StringToNumber v = number_of x"
      by simp
    with r r0 show ?thesis
      by (simp add: spec_price_ok_def)
  qed
qed

text \<open>A value from \<open>2 ^ 1024\<close> on rounds to infinity.\<close>

lemma number_of_large:
  assumes "pow2 1024 \<le> x"
  shows "number_of x = PosInf"
proof -
  have xpos: "0 < x"
    using assms pow2_pos [of 1024] by simp
  from ilog2_bounds [OF xpos] assms have "pow2 1024 < pow2 (ilog2 x + 1)"
    by simp
  then have "1024 < ilog2 x + 1"
    by (simp only: pow2_less_iff)
  then have e: "1024 \<le> ilog2 x"
    by simp
  then have u: "ulp x = pow2 (ilog2 x - 52)"
    by (simp add: ulp_def max_def)
  from e have "- 1022 \<le> ilog2 x"
    by simp
  from significand_bounds(4) [OF xpos this]
  have "2 ^ 52 \<le> round_half_even (x / ulp x)" .
  then have "(of_int (2 ^ 52) :: rat) \<le> of_int (round_half_even (x / ulp x))"
    by (simp only: of_int_le_iff)
  then have n: "(2 ^ 52 :: rat) \<le> of_int (round_half_even (x / ulp x))"
    by simp
  have "pow2 1024 \<le> pow2 (ilog2 x)"
    using e by (rule pow2_mono)
  also have "pow2 (ilog2 x) = ulp x * 2 ^ 52"
    unfolding u using pow2_shift [of "ilog2 x - 52" 52] by simp
  also have "\<dots> \<le> of_int (round_half_even (x / ulp x)) * ulp x"
    using mult_right_mono [OF n less_imp_le [OF ulp_pos [of x]]] by (simp add: mult.commute)
  finally have "pow2 1024 \<le> of_int (round_half_even (x / ulp x)) * ulp x" .
  then show ?thesis
    using xpos by (simp add: number_of_def Let_def)
qed

subsection \<open>The price of the draft\<close>

text \<open>In every state of the page the price of the draft is empty or a valid floating-point number.\<close>

lemma newItem_addItem:
  "newItem (fst (addItem s now result)) = newItem s
   \<or> newItem (fst (addItem s now result)) = \<lparr>name = [], price = []\<rparr>"
  by (cases result) (simp_all add: addItem_def Let_def)

lemma reachable_price:
  "reachable s \<Longrightarrow>
     price (newItem s) = [] \<or> valid_floating_point_number (price (newItem s))"
proof (induction rule: reachable.induct)
  case mount
  show ?case by (simp add: initial_state_def)
next
  case (name_typed s v)
  then show ?case by (simp add: onChange_name_def)
next
  case (price_typed s raw)
  show ?case by (simp add: onChange_price_def value_sanitization_def)
next
  case (submitted s other_flags now result)
  with newItem_addItem [of s now result] show ?case
    by (auto simp: onSubmit_def)
next
  case (snapshot s docs)
  then show ?case
    by (simp add: receive_snapshot_def onSnapshot_callback_def total_effect_def)
next
  case (delete_clicked s ident confirmed result)
  then show ?case by (cases result) (simp_all add: deleteItem_def Let_def)
next
  case (total_derived s)
  then show ?case by (simp add: total_effect_def)
qed

lemma addItem_call:
  assumes "addDoc c d \<in> set (snd (addItem s now result))"
  shows "c = utf16 ''items'' \<and> doc_name d = trim (name (newItem s)) \<and> doc_name d \<noteq> []
         \<and> price (newItem s) \<noteq> []
         \<and> doc_price d = StringToNumber (price (newItem s))"
  using assms
  by (cases result) (auto simp: addItem_def Let_def Number_string split: if_splits)

lemma items_receive_snapshot:
  "items (receive_snapshot docs s) =
     map (\<lambda>doc. \<lparr>item_id = doc_id doc,
                   item_price = Number (property (doc_data doc) (utf16 ''price'')),
                   item_data = doc_data doc\<rparr>) docs"
  by (simp add: receive_snapshot_def onSnapshot_callback_def total_effect_def)

lemma valid_3_5: "valid_floating_point_number (utf16 ''3.5'')"
  by (simp add: valid_floating_point_number_def floating_point_number_def utf16_def
      isDecimalDigit_def digit_value_def ExponentPart_opt_def Let_def)

lemma valid_minus_5: "valid_floating_point_number (utf16 ''-5'')"
  by (simp add: valid_floating_point_number_def floating_point_number_def utf16_def
      isDecimalDigit_def digit_value_def ExponentPart_opt_def Let_def)

lemma not_valid_abc: "\<not> valid_floating_point_number (utf16 ''abc'')"
  by (simp add: valid_floating_point_number_def floating_point_number_def utf16_def
      isDecimalDigit_def digit_value_def ExponentPart_opt_def Let_def)

lemma fpn_3_5: "floating_point_number (utf16 ''3.5'') = Some (7 / 2)"
  by (simp add: floating_point_number_def utf16_def isDecimalDigit_def digit_value_def
      ExponentPart_opt_def Let_def pow10_def)

lemma fpn_5: "floating_point_number (utf16 ''5'') = Some 5"
  by (simp add: floating_point_number_def utf16_def isDecimalDigit_def digit_value_def
      ExponentPart_opt_def Let_def pow10_def)

lemma convert_to_number_3_5: "convert_to_number (utf16 ''3.5'') = Some (Fin (7 / 2))"
proof -
  have "convert_to_number (utf16 ''3.5'') =
      (case number_of (7 / 2) of Fin q \<Rightarrow> Some (Fin q) | _ \<Rightarrow> None)"
    using fpn_3_5 by (simp add: convert_to_number_def utf16_def)
  then show ?thesis
    by (simp add: number_of_7_2)
qed

lemma rangeUnderflow_3_5: "\<not> rangeUnderflow (utf16 ''3.5'')"
  by (simp add: rangeUnderflow_def convert_to_number_3_5)

lemma rangeUnderflow_minus_5: "rangeUnderflow (utf16 ''-5'')"
proof -
  have "floating_point_number [0x35] = Some 5"
    using fpn_5 by (simp add: utf16_def)
  then have "convert_to_number (utf16 ''-5'') =
      (case number_of 5 of Fin q \<Rightarrow> Some (Fin (- q)) | _ \<Rightarrow> None)"
    by (simp add: convert_to_number_def utf16_def)
  then have "convert_to_number (utf16 ''-5'') = Some (Fin (- 5))"
    by (simp add: number_of_5)
  then show ?thesis
    by (simp add: rangeUnderflow_def)
qed

text \<open>The form does not hand the draft price "-5" to \<open>addItem\<close>.\<close>

lemma onSubmit_minus_5:
  "reachable (onChange_price (value_sanitization (utf16 ''-5''))
                (onChange_name (utf16 ''Tea'') initial_state))
   \<and> onSubmit False
        (onChange_price (value_sanitization (utf16 ''-5''))
           (onChange_name (utf16 ''Tea'') initial_state)) now result
     = (initial_state\<lparr>newItem := \<lparr>name = utf16 ''Tea'', price = utf16 ''-5''\<rparr>\<rparr>, [])"
proof -
  have "reachable (onChange_price (value_sanitization (utf16 ''-5''))
                (onChange_name (utf16 ''Tea'') initial_state))"
    by (intro reachable.intros)
  moreover have "onChange_price (value_sanitization (utf16 ''-5''))
           (onChange_name (utf16 ''Tea'') initial_state)
          = initial_state\<lparr>newItem := \<lparr>name = utf16 ''Tea'', price = utf16 ''-5''\<rparr>\<rparr>"
    using valid_minus_5
    by (simp add: onChange_price_def onChange_name_def value_sanitization_def initial_state_def)
  ultimately show ?thesis
    using rangeUnderflow_minus_5 by (simp add: onSubmit_def)
qed

text \<open>
  A negative price beyond the binary64 range, as "-1e309": it is a valid floating-point
  number that does not convert, so the field does not suffer from an underflow, and when
  the browser does not hold it back for a reason of its own, \<open>addItem\<close> writes the price
  \<open>-Infinity\<close>.
\<close>

lemma fpn_1e309: "floating_point_number (utf16 ''1e309'') = Some (10 ^ 309)"
  by (simp add: floating_point_number_def utf16_def isDecimalDigit_def digit_value_def
      ExponentPart_opt_def SignedInteger_def DecimalDigits_def Let_def pow10_def)

lemma number_of_1e309: "number_of (10 ^ 309) = PosInf"
  by (rule number_of_large) (simp add: pow2_def)

lemma onSubmit_beyond_range:
  "reachable (onChange_price (value_sanitization (utf16 ''-1e309''))
                (onChange_name (utf16 ''Tea'') initial_state))
   \<and> convert_to_number (utf16 ''-1e309'') = None
   \<and> \<not> rangeUnderflow (utf16 ''-1e309'')
   \<and> snd (onSubmit False
            (onChange_price (value_sanitization (utf16 ''-1e309''))
               (onChange_name (utf16 ''Tea'') initial_state)) now Resolved)
       = [addDoc (utf16 ''items'')
            \<lparr>doc_name = utf16 ''Tea'', doc_price = NegInf, createdAt = now\<rparr>]"
proof -
  let ?s = "onChange_price (value_sanitization (utf16 ''-1e309''))
              (onChange_name (utf16 ''Tea'') initial_state)"
  have u: "utf16 ''-1e309'' = 0x2D # utf16 ''1e309''"
    by (simp add: utf16_def)
  have r: "reachable ?s"
    by (intro reachable.intros)
  have valid: "valid_floating_point_number (utf16 ''-1e309'')"
    unfolding u using fpn_1e309 by (simp add: valid_floating_point_number_def)
  have conv: "convert_to_number (utf16 ''-1e309'') = None"
    unfolding u using fpn_1e309 number_of_1e309 by (simp add: convert_to_number_def)
  then have nu: "\<not> rangeUnderflow (utf16 ''-1e309'')"
    by (simp add: rangeUnderflow_def)
  from valid_StringToNumber [OF valid] obtain x where
    "floating_point_number (tl (utf16 ''-1e309'')) = Some x"
    and "StringToNumber (utf16 ''-1e309'') = negate (number_of x)"
    unfolding u by auto
  then have sn: "StringToNumber (utf16 ''-1e309'') = NegInf"
    unfolding u using fpn_1e309 number_of_1e309 by (simp add: negate_def)
  have s: "?s = initial_state\<lparr>newItem := \<lparr>name = utf16 ''Tea'', price = utf16 ''-1e309''\<rparr>\<rparr>"
    using valid
    by (simp add: onChange_price_def onChange_name_def value_sanitization_def initial_state_def)
  have t: "trim (utf16 ''Tea'') \<noteq> []" and p: "utf16 ''-1e309'' \<noteq> []"
    by (simp_all add: trim_Tea) (simp_all add: utf16_def)
  have "snd (onSubmit False ?s now Resolved)
       = [addDoc (utf16 ''items'')
            \<lparr>doc_name = utf16 ''Tea'', doc_price = NegInf, createdAt = now\<rparr>]"
    unfolding s using t p nu
    by (simp add: onSubmit_def addItem_def Let_def Number_string sn trim_Tea)
  with r conv nu show ?thesis
    by blast
qed

section \<open>Properties of the page\<close>

subsection \<open>C1: the derived total\<close>

text \<open>
  C1, as the page has it.  For every item list \<open>L\<close> let \<open>S\<close> be the sum as the page
  computes it, \<open>newTotal L\<close>: Number addition from 0 in the order of the list.  When \<open>S\<close>
  is finite and of magnitude below \<open>10 ^ 21\<close>, the derived total is \<open>S\<close> rounded to
  hundredths, halves away from zero, and printed with exactly two decimal places;
  otherwise the total is \<open>Number::toString\<close> of \<open>S\<close>.  For \<open>n\<close> prices that are finite
  binary64 values not below 0, and \<open>S\<close> finite, \<open>S\<close> lies between \<open>(1 - 2 ^ -53) ^ n\<close> and
  \<open>(1 + 2 ^ -53) ^ n\<close> times the mathematical sum of the prices, and when these two bounds
  round to the same hundredth, below \<open>10 ^ 21\<close>, the total is the mathematical sum of the
  prices printed with two decimal places; \<open>S\<close> is the mathematical sum when no addition
  has to round.  For the empty list the total is \<open>0.00\<close>; the total row is rendered
  exactly when \<open>L\<close> is not empty, and then shows the total.
\<close>

theorem total_two_decimals:
  "(is_finite (newTotal L) \<and> \<bar>mathematical_value (newTotal L)\<bar> < 10 ^ 21 \<longrightarrow>
      total (total_effect (s\<lparr>items := L\<rparr>)) =
        JString (spec_two_decimals (mathematical_value (newTotal L))))
   \<and> (\<not> (is_finite (newTotal L) \<and> \<bar>mathematical_value (newTotal L)\<bar> < 10 ^ 21) \<longrightarrow>
        total (total_effect (s\<lparr>items := L\<rparr>)) = JString (Number_toString (newTotal L)))
   \<and> newTotal [] = Fin 0
   \<and> newTotal (L @ [it]) = Number_add (newTotal L) (item_price it)
   \<and> ((\<forall>it \<in> set L. is_binary64 (item_price it) \<and> is_finite (item_price it)
                       \<and> 0 \<le> mathematical_value (item_price it))
        \<and> is_finite (newTotal L) \<longrightarrow>
        (1 - 1 / 2 ^ 53) ^ length L
            * sum_list (map (\<lambda>it. mathematical_value (item_price it)) L)
          \<le> mathematical_value (newTotal L)
        \<and> mathematical_value (newTotal L)
          \<le> (1 + 1 / 2 ^ 53) ^ length L
            * sum_list (map (\<lambda>it. mathematical_value (item_price it)) L))
   \<and> ((\<forall>it \<in> set L. is_binary64 (item_price it) \<and> is_finite (item_price it)
                       \<and> 0 \<le> mathematical_value (item_price it))
        \<and> is_finite (newTotal L)
        \<and> \<lfloor>(1 - 1 / 2 ^ 53) ^ length L
              * sum_list (map (\<lambda>it. mathematical_value (item_price it)) L) * 100 + 1 / 2\<rfloor>
          = \<lfloor>(1 + 1 / 2 ^ 53) ^ length L
              * sum_list (map (\<lambda>it. mathematical_value (item_price it)) L) * 100 + 1 / 2\<rfloor>
        \<and> (1 + 1 / 2 ^ 53) ^ length L
              * sum_list (map (\<lambda>it. mathematical_value (item_price it)) L) < 10 ^ 21 \<longrightarrow>
        total (total_effect (s\<lparr>items := L\<rparr>)) =
          JString (spec_two_decimals
            (sum_list (map (\<lambda>it. mathematical_value (item_price it)) L))))
   \<and> (exact_sums 0 L \<longrightarrow>
        newTotal L = Fin (sum_list (map (\<lambda>it. mathematical_value (item_price it)) L)))
   \<and> total (total_effect (s\<lparr>items := []\<rparr>)) = JString (utf16 ''0.00'')
   \<and> (total_row (total_effect (s\<lparr>items := L\<rparr>)) \<noteq> None \<longleftrightarrow> L \<noteq> [])
   \<and> (L \<noteq> [] \<longrightarrow>
        total_row (total_effect (s\<lparr>items := L\<rparr>)) =
          Some (total (total_effect (s\<lparr>items := L\<rparr>))))"
proof -
  have zero: "toFixed (Fin 0) 2 = utf16 ''0.00''"
    using toFixed_two_decimals [of "Fin 0"]
    by (simp add: is_finite_def mathematical_value_def spec_two_decimals_0)
  have t: "total (total_effect (s\<lparr>items := L\<rparr>)) = JString (toFixed (newTotal L) 2)"
    by (simp add: total_effect_def)
  have small: "total (total_effect (s\<lparr>items := L\<rparr>)) =
        JString (spec_two_decimals (mathematical_value (newTotal L)))"
    if "is_finite (newTotal L) \<and> \<bar>mathematical_value (newTotal L)\<bar> < 10 ^ 21"
    unfolding t using that by (simp add: toFixed_two_decimals)
  have large: "total (total_effect (s\<lparr>items := L\<rparr>)) = JString (Number_toString (newTotal L))"
    if "\<not> (is_finite (newTotal L) \<and> \<bar>mathematical_value (newTotal L)\<bar> < 10 ^ 21)"
    unfolding t using toFixed_large [OF newTotal_is_binary64 that] by simp
  have bound: "(1 - 1 / 2 ^ 53) ^ length L
            * sum_list (map (\<lambda>it. mathematical_value (item_price it)) L)
          \<le> mathematical_value (newTotal L)
        \<and> mathematical_value (newTotal L)
          \<le> (1 + 1 / 2 ^ 53) ^ length L
            * sum_list (map (\<lambda>it. mathematical_value (item_price it)) L)"
    if "(\<forall>it \<in> set L. is_binary64 (item_price it) \<and> is_finite (item_price it)
                       \<and> 0 \<le> mathematical_value (item_price it))
        \<and> is_finite (newTotal L)"
    using that newTotal_bound [of L] by blast
  have sum: "total (total_effect (s\<lparr>items := L\<rparr>)) =
          JString (spec_two_decimals
            (sum_list (map (\<lambda>it. mathematical_value (item_price it)) L)))"
    if "(\<forall>it \<in> set L. is_binary64 (item_price it) \<and> is_finite (item_price it)
                       \<and> 0 \<le> mathematical_value (item_price it))
        \<and> is_finite (newTotal L)
        \<and> \<lfloor>(1 - 1 / 2 ^ 53) ^ length L
              * sum_list (map (\<lambda>it. mathematical_value (item_price it)) L) * 100 + 1 / 2\<rfloor>
          = \<lfloor>(1 + 1 / 2 ^ 53) ^ length L
              * sum_list (map (\<lambda>it. mathematical_value (item_price it)) L) * 100 + 1 / 2\<rfloor>
        \<and> (1 + 1 / 2 ^ 53) ^ length L
              * sum_list (map (\<lambda>it. mathematical_value (item_price it)) L) < 10 ^ 21"
  proof -
    from that have "toFixed (newTotal L) 2 =
        spec_two_decimals (sum_list (map (\<lambda>it. mathematical_value (item_price it)) L))"
      by (intro toFixed_newTotal_sum) blast+
    then show ?thesis
      unfolding t by simp
  qed
  have exact: "newTotal L = Fin (sum_list (map (\<lambda>it. mathematical_value (item_price it)) L))"
    if "exact_sums 0 L"
    using foldl_add_exact [OF that] by (simp add: newTotal_def)
  have t0: "total (total_effect (s\<lparr>items := []\<rparr>)) = JString (utf16 ''0.00'')"
    by (simp add: total_effect_def newTotal_Nil zero)
  have row: "total_row (total_effect (s\<lparr>items := L\<rparr>)) \<noteq> None \<longleftrightarrow> L \<noteq> []"
    by (simp add: total_row_def total_effect_def)
  have shown: "total_row (total_effect (s\<lparr>items := L\<rparr>)) =
          Some (total (total_effect (s\<lparr>items := L\<rparr>)))"
    if "L \<noteq> []"
    using that by (simp add: total_row_def total_effect_def)
  show ?thesis
    apply (intro conjI impI)
    subgoal by (rule small)
    subgoal by (rule large)
    subgoal by (rule newTotal_Nil)
    subgoal by (rule newTotal_snoc)
    subgoal using bound by blast
    subgoal using bound by blast
    subgoal by (rule sum)
    subgoal by (rule exact)
    subgoal by (rule t0)
    subgoal by (rule row)
    subgoal by (rule shown)
    done
qed

text \<open>
  C1, as the page has it, at three lists.  The prices \<open>3.5\<close> and \<open>2\<close>: no addition rounds,
  the sum is \<open>5.5\<close>, the total \<open>5.50\<close>, and the total row shows it.  The prices \<open>0.1\<close> and
  \<open>0.2\<close>: the second addition rounds, the page's sum is not the mathematical sum of the two
  prices but lies within the bounds, which both round to 30 hundredths, and the total is
  \<open>0.30\<close>, the mathematical sum printed with two decimal places.  The price \<open>1e21\<close>: the
  sum is not below \<open>10 ^ 21\<close> and the total is \<open>1e+21\<close>.
\<close>

theorem total_two_decimals_witness:
  "exact_sums 0 [\<lparr>item_id = utf16 ''a1'', item_price = Fin (7 / 2), item_data = Map.empty\<rparr>,
                 \<lparr>item_id = utf16 ''a2'', item_price = Fin 2, item_data = Map.empty\<rparr>]
   \<and> total (total_effect (initial_state\<lparr>items :=
        [\<lparr>item_id = utf16 ''a1'', item_price = Fin (7 / 2), item_data = Map.empty\<rparr>,
         \<lparr>item_id = utf16 ''a2'', item_price = Fin 2, item_data = Map.empty\<rparr>]\<rparr>))
       = JString (utf16 ''5.50'')
   \<and> total_row (total_effect (initial_state\<lparr>items :=
        [\<lparr>item_id = utf16 ''a1'', item_price = Fin (7 / 2), item_data = Map.empty\<rparr>,
         \<lparr>item_id = utf16 ''a2'', item_price = Fin 2, item_data = Map.empty\<rparr>]\<rparr>))
       = Some (JString (utf16 ''5.50''))
   \<and> \<not> exact_sums 0
        [\<lparr>item_id = utf16 ''b1'', item_price = number_of (1 / 10), item_data = Map.empty\<rparr>,
         \<lparr>item_id = utf16 ''b2'', item_price = number_of (2 / 10), item_data = Map.empty\<rparr>]
   \<and> newTotal
        [\<lparr>item_id = utf16 ''b1'', item_price = number_of (1 / 10), item_data = Map.empty\<rparr>,
         \<lparr>item_id = utf16 ''b2'', item_price = number_of (2 / 10), item_data = Map.empty\<rparr>]
       = Fin (1351079888211149 / 4503599627370496)
   \<and> (1 - 1 / 2 ^ 53) ^ 2
        * (3602879701896397 / 36028797018963968 + 3602879701896397 / 18014398509481984)
       \<le> (1351079888211149 / 4503599627370496 :: rat)
   \<and> (1351079888211149 / 4503599627370496 :: rat)
       \<le> (1 + 1 / 2 ^ 53) ^ 2
        * (3602879701896397 / 36028797018963968 + 3602879701896397 / 18014398509481984)
   \<and> \<lfloor>(1 - 1 / 2 ^ 53) ^ 2
        * (3602879701896397 / 36028797018963968 + 3602879701896397 / 18014398509481984)
        * 100 + 1 / 2 :: rat\<rfloor> = 30
   \<and> \<lfloor>(1 + 1 / 2 ^ 53) ^ 2
        * (3602879701896397 / 36028797018963968 + 3602879701896397 / 18014398509481984)
        * 100 + 1 / 2 :: rat\<rfloor> = 30
   \<and> spec_two_decimals
        (3602879701896397 / 36028797018963968 + 3602879701896397 / 18014398509481984)
       = utf16 ''0.30''
   \<and> total (total_effect (initial_state\<lparr>items :=
        [\<lparr>item_id = utf16 ''b1'', item_price = number_of (1 / 10), item_data = Map.empty\<rparr>,
         \<lparr>item_id = utf16 ''b2'', item_price = number_of (2 / 10), item_data = Map.empty\<rparr>]\<rparr>))
       = JString (utf16 ''0.30'')
   \<and> \<not> (is_finite (newTotal
            [\<lparr>item_id = utf16 ''c1'', item_price = Fin (10 ^ 21), item_data = Map.empty\<rparr>])
        \<and> \<bar>mathematical_value (newTotal
            [\<lparr>item_id = utf16 ''c1'', item_price = Fin (10 ^ 21), item_data = Map.empty\<rparr>])\<bar>
          < 10 ^ 21)
   \<and> total (total_effect (initial_state\<lparr>items :=
        [\<lparr>item_id = utf16 ''c1'', item_price = Fin (10 ^ 21), item_data = Map.empty\<rparr>]\<rparr>))
       = JString (utf16 ''1e+21'')"
proof -
  let ?La = "[\<lparr>item_id = utf16 ''a1'', item_price = Fin (7 / 2), item_data = Map.empty\<rparr>,
              \<lparr>item_id = utf16 ''a2'', item_price = Fin 2, item_data = Map.empty\<rparr>]"
  let ?Lb = "[\<lparr>item_id = utf16 ''b1'', item_price = number_of (1 / 10), item_data = Map.empty\<rparr>,
              \<lparr>item_id = utf16 ''b2'', item_price = number_of (2 / 10), item_data = Map.empty\<rparr>]"
  let ?Lc = "[\<lparr>item_id = utf16 ''c1'', item_price = Fin (10 ^ 21), item_data = Map.empty\<rparr>]"
  note A = total_two_decimals [of ?La initial_state]
  note B = total_two_decimals [of ?Lb initial_state]
  note C = total_two_decimals [of ?Lc initial_state]
  have d72: "is_double (7 / 2)"
    using number_of_is_double [OF number_of_7_2] .
  have ea: "exact_sums 0 ?La"
    using d72 is_double_11_2 by (simp add: is_finite_def mathematical_value_def)
  with A have "newTotal ?La = Fin (sum_list (map (\<lambda>it. mathematical_value (item_price it)) ?La))"
    by blast
  then have sa: "newTotal ?La = Fin (11 / 2)"
    by (simp add: mathematical_value_def)
  have "is_finite (newTotal ?La) \<and> \<bar>mathematical_value (newTotal ?La)\<bar> < 10 ^ 21"
    unfolding sa by (simp add: is_finite_def mathematical_value_def)
  with A have "total (total_effect (initial_state\<lparr>items := ?La\<rparr>)) =
      JString (spec_two_decimals (mathematical_value (newTotal ?La)))"
    by blast
  then have ta: "total (total_effect (initial_state\<lparr>items := ?La\<rparr>)) = JString (utf16 ''5.50'')"
    unfolding sa by (simp add: mathematical_value_def spec_two_decimals_5_5)
  have "?La \<noteq> []" by simp
  with A have "total_row (total_effect (initial_state\<lparr>items := ?La\<rparr>)) =
      Some (total (total_effect (initial_state\<lparr>items := ?La\<rparr>)))"
    by blast
  with ta have ra: "total_row (total_effect (initial_state\<lparr>items := ?La\<rparr>)) =
      Some (JString (utf16 ''5.50''))"
    by simp
  have sb: "newTotal ?Lb = Fin (1351079888211149 / 4503599627370496)"
    by (rule newTotal_0_1_0_2)
  have nb: "\<not> exact_sums 0 ?Lb"
  proof
    assume "exact_sums 0 ?Lb"
    with B have "newTotal ?Lb = Fin (sum_list (map (\<lambda>it. mathematical_value (item_price it)) ?Lb))"
      by blast
    with sb have "Fin (1351079888211149 / 4503599627370496) =
        Fin (sum_list (map (\<lambda>it. mathematical_value (item_price it)) ?Lb))"
      by (rule trans [OF sym])
    then show False
      using number_of_0_1 number_of_0_2 by (simp add: mathematical_value_def)
  qed
  have fb: "is_finite (newTotal ?Lb)"
    unfolding sb by (simp add: is_finite_def)
  have pb: "\<forall>it \<in> set ?Lb. is_binary64 (item_price it) \<and> is_finite (item_price it)
                 \<and> 0 \<le> mathematical_value (item_price it)"
    using number_of_0_1 number_of_0_2 number_of_binary64 [of "1 / 10"] number_of_binary64 [of "2 / 10"]
    by (simp add: is_finite_def mathematical_value_def)
  have lb: "length ?Lb = 2"
    by simp
  have mb: "sum_list (map (\<lambda>it. mathematical_value (item_price it)) ?Lb) =
      3602879701896397 / 36028797018963968 + 3602879701896397 / 18014398509481984"
    using number_of_0_1 number_of_0_2 by (simp add: mathematical_value_def)
  have vb: "mathematical_value (newTotal ?Lb) = 1351079888211149 / 4503599627370496"
    unfolding sb by (simp add: mathematical_value_def)
  from pb fb B have "(1 - 1 / 2 ^ 53) ^ length ?Lb
            * sum_list (map (\<lambda>it. mathematical_value (item_price it)) ?Lb)
          \<le> mathematical_value (newTotal ?Lb)
        \<and> mathematical_value (newTotal ?Lb)
          \<le> (1 + 1 / 2 ^ 53) ^ length ?Lb
            * sum_list (map (\<lambda>it. mathematical_value (item_price it)) ?Lb)"
    by blast
  then have bb: "(1 - 1 / 2 ^ 53) ^ 2
        * (3602879701896397 / 36028797018963968 + 3602879701896397 / 18014398509481984)
       \<le> (1351079888211149 / 4503599627370496 :: rat)
     \<and> (1351079888211149 / 4503599627370496 :: rat)
       \<le> (1 + 1 / 2 ^ 53) ^ 2
        * (3602879701896397 / 36028797018963968 + 3602879701896397 / 18014398509481984)"
    unfolding lb mb vb .
  have flo: "\<lfloor>(1 - 1 / 2 ^ 53) ^ 2
        * (3602879701896397 / 36028797018963968 + 3602879701896397 / 18014398509481984)
        * 100 + 1 / 2 :: rat\<rfloor> = 30"
    by (simp add: power2_eq_square)
  have fhi: "\<lfloor>(1 + 1 / 2 ^ 53) ^ 2
        * (3602879701896397 / 36028797018963968 + 3602879701896397 / 18014398509481984)
        * 100 + 1 / 2 :: rat\<rfloor> = 30"
    by (simp add: power2_eq_square)
  have "(1 + 1 / 2 ^ 53) ^ 2
        * (3602879701896397 / 36028797018963968 + 3602879701896397 / 18014398509481984)
        < (10 ^ 21 :: rat)"
    by (simp add: power2_eq_square)
  with flo fhi have "\<lfloor>(1 - 1 / 2 ^ 53) ^ length ?Lb
              * sum_list (map (\<lambda>it. mathematical_value (item_price it)) ?Lb) * 100 + 1 / 2\<rfloor>
          = \<lfloor>(1 + 1 / 2 ^ 53) ^ length ?Lb
              * sum_list (map (\<lambda>it. mathematical_value (item_price it)) ?Lb) * 100 + 1 / 2\<rfloor>
        \<and> (1 + 1 / 2 ^ 53) ^ length ?Lb
              * sum_list (map (\<lambda>it. mathematical_value (item_price it)) ?Lb) < 10 ^ 21"
    unfolding lb mb by (simp only:)
  with pb fb B have "total (total_effect (initial_state\<lparr>items := ?Lb\<rparr>)) =
          JString (spec_two_decimals
            (sum_list (map (\<lambda>it. mathematical_value (item_price it)) ?Lb)))"
    by blast
  then have tb': "total (total_effect (initial_state\<lparr>items := ?Lb\<rparr>)) =
          JString (spec_two_decimals
            (3602879701896397 / 36028797018963968 + 3602879701896397 / 18014398509481984))"
    unfolding mb .
  have fmt: "spec_two_decimals
        (3602879701896397 / 36028797018963968 + 3602879701896397 / 18014398509481984)
       = utf16 ''0.30''"
    by (simp add: spec_two_decimals_def decimal_small digit_char_def utf16_def)
  from tb' have tb: "total (total_effect (initial_state\<lparr>items := ?Lb\<rparr>)) = JString (utf16 ''0.30'')"
    unfolding fmt .
  have sc: "newTotal ?Lc = Fin 1000000000000000000000"
    using number_of_1e21 by (simp add: newTotal_def Number_add_def mathematical_value_def)
  have hc: "\<not> (is_finite (newTotal ?Lc) \<and> \<bar>mathematical_value (newTotal ?Lc)\<bar> < 10 ^ 21)"
    unfolding sc by (simp add: mathematical_value_def)
  with C have "total (total_effect (initial_state\<lparr>items := ?Lc\<rparr>)) =
      JString (Number_toString (newTotal ?Lc))"
    by blast
  then have tc: "total (total_effect (initial_state\<lparr>items := ?Lc\<rparr>)) = JString (utf16 ''1e+21'')"
    unfolding sc by (simp add: Number_toString_1e21)
  show ?thesis
    using ea ta ra nb sb bb flo fhi fmt tb hc tc by blast
qed

text \<open>
  C1 as stated fails in two ways.  For the single item of price \<open>1e21\<close> the total is
  \<open>1e+21\<close>, which is not the sum printed with two decimal places.  For the two items of
  prices \<open>0.0625\<close> and \<open>0.06249999999999999\<close>, both binary64 values, the page's sum is
  rounded up to \<open>0.125\<close> and the total is \<open>0.13\<close>, while the sum of the two price fields,
  which lies below \<open>0.125\<close>, printed with two decimal places is \<open>0.12\<close>.
\<close>

theorem total_two_decimals_counterexample:
  "total (total_effect
     (initial_state\<lparr>items := [\<lparr>item_id = utf16 ''a1'', item_price = Fin (10 ^ 21),
                                item_data = Map.empty\<rparr>]\<rparr>)) = JString (utf16 ''1e+21'')
   \<and> utf16 ''1e+21'' \<noteq> spec_two_decimals (10 ^ 21)
   \<and> is_binary64 (Fin (1 / 16)) \<and> is_binary64 (Fin (9007199254740991 / 144115188075855872))
   \<and> total (total_effect
       (initial_state\<lparr>items :=
          [\<lparr>item_id = utf16 ''a1'', item_price = Fin (1 / 16), item_data = Map.empty\<rparr>,
           \<lparr>item_id = utf16 ''a2'', item_price = Fin (9007199254740991 / 144115188075855872),
            item_data = Map.empty\<rparr>]\<rparr>)) = JString (utf16 ''0.13'')
   \<and> spec_two_decimals (1 / 16 + 9007199254740991 / 144115188075855872) = utf16 ''0.12''
   \<and> utf16 ''0.13'' \<noteq> utf16 ''0.12''"
proof -
  have sum: "newTotal [\<lparr>item_id = utf16 ''a1'', item_price = Fin (10 ^ 21), item_data = Map.empty\<rparr>]
             = Fin 1000000000000000000000"
    using number_of_1e21 by (simp add: newTotal_def Number_add_def mathematical_value_def)
  have ne: "utf16 ''1e+21'' \<noteq> spec_two_decimals (10 ^ 21)"
    by (simp add: spec_two_decimals_def utf16_def decimal.simps digit_char_def)
  have big: "total (total_effect
     (initial_state\<lparr>items := [\<lparr>item_id = utf16 ''a1'', item_price = Fin (10 ^ 21),
                                item_data = Map.empty\<rparr>]\<rparr>)) = JString (utf16 ''1e+21'')"
    using sum toFixed_1e21 by (simp add: total_effect_def)
  have b: "is_binary64 (Fin (1 / 16))"
      "is_binary64 (Fin (9007199254740991 / 144115188075855872))"
    using is_double_1_16 is_double_below_1_16 by (simp_all add: is_binary64_def)
  have up: "total (total_effect
       (initial_state\<lparr>items :=
          [\<lparr>item_id = utf16 ''a1'', item_price = Fin (1 / 16), item_data = Map.empty\<rparr>,
           \<lparr>item_id = utf16 ''a2'', item_price = Fin (9007199254740991 / 144115188075855872),
            item_data = Map.empty\<rparr>]\<rparr>)) = JString (utf16 ''0.13'')"
    using newTotal_rounded_up toFixed_1_8 by (simp add: total_effect_def)
  have d: "utf16 ''0.13'' \<noteq> utf16 ''0.12''"
    by (simp add: utf16_def)
  show ?thesis
    using big ne b up spec_two_decimals_below_1_8 d by blast
qed

subsection \<open>C2: a blank name\<close>

text \<open>
  C2.  For every draft whose name is empty or consists of white space only, \<open>addItem\<close>
  sets the error to "Please enter an expense name.", issues no store call and changes
  nothing else, whatever the price is: the amount message is never the result.
\<close>

theorem addItem_blank_name:
  "list_all isWhiteSpace (name (newItem s)) \<Longrightarrow>
     addItem s now result = (s\<lparr>error := Some (utf16 ''Please enter an expense name.'')\<rparr>, [])
     \<and> error (fst (addItem s now result)) \<noteq> Some (utf16 ''Please enter an amount.'')"
  by (simp add: addItem_def trim_Nil_iff utf16_def)

text \<open>C2 at the draft with name " " and an empty price.\<close>

theorem addItem_blank_name_witness:
  "list_all isWhiteSpace (name (newItem (initial_state\<lparr>newItem := \<lparr>name = utf16 '' '', price = []\<rparr>\<rparr>)))
   \<and> addItem (initial_state\<lparr>newItem := \<lparr>name = utf16 '' '', price = []\<rparr>\<rparr>) 0 Resolved =
       (initial_state\<lparr>newItem := \<lparr>name = utf16 '' '', price = []\<rparr>,
                      error := Some (utf16 ''Please enter an expense name.'')\<rparr>, [])"
proof -
  have h: "list_all isWhiteSpace
             (name (newItem (initial_state\<lparr>newItem := \<lparr>name = utf16 '' '', price = []\<rparr>\<rparr>)))"
    by (simp add: utf16_def isWhiteSpace_def)
  from addItem_blank_name [OF h, of 0 Resolved] h show ?thesis
    by simp
qed

subsection \<open>C3: an empty price\<close>

text \<open>
  C3.  For every draft whose trimmed name is not empty: with an empty price string,
  \<open>addItem\<close> sets the error to "Please enter an amount." and issues no store call; with
  any other price string, numeric or not, the check passes and the record is submitted.
\<close>

theorem addItem_blank_price:
  "trim (name (newItem s)) \<noteq> [] \<Longrightarrow>
     (price (newItem s) = [] \<longrightarrow>
        addItem s now result = (s\<lparr>error := Some (utf16 ''Please enter an amount.'')\<rparr>, []))
   \<and> (price (newItem s) \<noteq> [] \<longrightarrow>
        snd (addItem s now result) =
          [addDoc (utf16 ''items'')
             \<lparr>doc_name = trim (name (newItem s)),
              doc_price = StringToNumber (price (newItem s)),
              createdAt = now\<rparr>]
        \<and> error (fst (addItem s now result)) \<noteq> Some (utf16 ''Please enter an amount.''))"
  by (cases result) (simp_all add: addItem_def Let_def Number_string utf16_def)

text \<open>C3 at the drafts with name "Tea" and the prices "" and "abc".\<close>

theorem addItem_blank_price_witness:
  "trim (name (newItem (initial_state\<lparr>newItem := \<lparr>name = utf16 ''Tea'', price = []\<rparr>\<rparr>))) \<noteq> []
   \<and> addItem (initial_state\<lparr>newItem := \<lparr>name = utf16 ''Tea'', price = []\<rparr>\<rparr>) 0 Resolved =
       (initial_state\<lparr>newItem := \<lparr>name = utf16 ''Tea'', price = []\<rparr>,
                      error := Some (utf16 ''Please enter an amount.'')\<rparr>, [])
   \<and> trim (name (newItem (initial_state\<lparr>newItem := \<lparr>name = utf16 ''Tea'', price = utf16 ''abc''\<rparr>\<rparr>))) \<noteq> []
   \<and> price (newItem (initial_state\<lparr>newItem := \<lparr>name = utf16 ''Tea'', price = utf16 ''abc''\<rparr>\<rparr>)) \<noteq> []
   \<and> snd (addItem (initial_state\<lparr>newItem := \<lparr>name = utf16 ''Tea'', price = utf16 ''abc''\<rparr>\<rparr>) 0 Resolved) =
       [addDoc (utf16 ''items'') \<lparr>doc_name = utf16 ''Tea'', doc_price = NaN, createdAt = 0\<rparr>]"
proof -
  let ?s1 = "initial_state\<lparr>newItem := \<lparr>name = utf16 ''Tea'', price = []\<rparr>\<rparr>"
  let ?s2 = "initial_state\<lparr>newItem := \<lparr>name = utf16 ''Tea'', price = utf16 ''abc''\<rparr>\<rparr>"
  have h1: "trim (name (newItem ?s1)) \<noteq> []"
    by (simp add: trim_Tea) (simp add: utf16_def)
  have h2: "trim (name (newItem ?s2)) \<noteq> []"
    by (simp add: trim_Tea) (simp add: utf16_def)
  have p2: "price (newItem ?s2) \<noteq> []"
    by (simp add: utf16_def)
  from addItem_blank_price [OF h1, of 0 Resolved] addItem_blank_price [OF h2, of 0 Resolved]
    h1 h2 p2
  show ?thesis
    by (simp add: trim_Tea StringToNumber_abc)
qed

subsection \<open>C4: a valid draft\<close>

text \<open>
  C4.  For every draft that passes both checks, \<open>addItem\<close> submits to the collection
  "items" one record with the trimmed name, the price string converted by \<open>Number\<close> and
  the current time as \<open>createdAt\<close>, and on success resets the draft to two empty strings.
  The draft \<open>{name: "Coffee", price: "3.5"}\<close> yields the record
  \<open>{name: "Coffee", price: 3.5, createdAt: now}\<close>.
\<close>

theorem addItem_submits:
  "(trim (name (newItem s)) \<noteq> [] \<and> price (newItem s) \<noteq> [] \<longrightarrow>
      snd (addItem s now result) =
        [addDoc (utf16 ''items'')
           \<lparr>doc_name = trim (name (newItem s)),
            doc_price = Number (Primitive (JString (price (newItem s)))),
            createdAt = now\<rparr>]
      \<and> (result = Resolved \<longrightarrow>
             newItem (fst (addItem s now result)) = \<lparr>name = [], price = []\<rparr>))
   \<and> (newItem s = \<lparr>name = utf16 ''Coffee'', price = utf16 ''3.5''\<rparr> \<longrightarrow>
        addItem s now Resolved =
          (s\<lparr>error := None, newItem := \<lparr>name = [], price = []\<rparr>\<rparr>,
           [addDoc (utf16 ''items'')
              \<lparr>doc_name = utf16 ''Coffee'', doc_price = Fin (7 / 2), createdAt = now\<rparr>]))"
proof -
  have ne: "utf16 ''Coffee'' \<noteq> []" "utf16 ''3.5'' \<noteq> []"
    by (simp_all add: utf16_def)
  show ?thesis
    by (cases result)
      (simp_all add: addItem_def Let_def trim_Coffee ne StringToNumber_3_5 Number_string)
qed

text \<open>C4 at the draft \<open>{name: "Coffee", price: "3.5"}\<close>, submitted with success.\<close>

theorem addItem_submits_witness:
  "trim (name (newItem (initial_state\<lparr>newItem := \<lparr>name = utf16 ''Coffee'', price = utf16 ''3.5''\<rparr>\<rparr>))) \<noteq> []
   \<and> price (newItem (initial_state\<lparr>newItem := \<lparr>name = utf16 ''Coffee'', price = utf16 ''3.5''\<rparr>\<rparr>)) \<noteq> []
   \<and> addItem (initial_state\<lparr>newItem := \<lparr>name = utf16 ''Coffee'', price = utf16 ''3.5''\<rparr>\<rparr>)
        1700000000000 Resolved =
       (initial_state,
        [addDoc (utf16 ''items'')
           \<lparr>doc_name = utf16 ''Coffee'', doc_price = Fin (7 / 2), createdAt = 1700000000000\<rparr>])"
proof -
  let ?s = "initial_state\<lparr>newItem := \<lparr>name = utf16 ''Coffee'', price = utf16 ''3.5''\<rparr>\<rparr>"
  have ne: "utf16 ''Coffee'' \<noteq> []" "utf16 ''3.5'' \<noteq> []"
    by (simp_all add: utf16_def)
  have d: "newItem ?s = \<lparr>name = utf16 ''Coffee'', price = utf16 ''3.5''\<rparr>"
    by simp
  from addItem_submits [of ?s 1700000000000 Resolved] d
  have "addItem ?s 1700000000000 Resolved =
          (?s\<lparr>error := None, newItem := \<lparr>name = [], price = []\<rparr>\<rparr>,
           [addDoc (utf16 ''items'')
              \<lparr>doc_name = utf16 ''Coffee'', doc_price = Fin (7 / 2), createdAt = 1700000000000\<rparr>])"
    by blast
  then show ?thesis
    by (simp add: trim_Coffee ne initial_state_def)
qed

subsection \<open>C5: a failed write\<close>

text \<open>
  C5.  For every add whose store write is issued and fails, the state afterwards is the
  state before with the error set to "Failed to add item. Please try again.": the
  draft, the items and the total are as they were.
\<close>

theorem addItem_write_fails:
  "snd (addItem s now Rejected) \<noteq> [] \<Longrightarrow>
     fst (addItem s now Rejected) =
       s\<lparr>error := Some (utf16 ''Failed to add item. Please try again.'')\<rparr>"
  by (simp add: addItem_def Let_def split: if_splits)

text \<open>C5 at the draft with name "Tea" and price "abc", the write rejected.\<close>

theorem addItem_write_fails_witness:
  "snd (addItem (initial_state\<lparr>newItem := \<lparr>name = utf16 ''Tea'', price = utf16 ''abc''\<rparr>\<rparr>) 0 Rejected) \<noteq> []
   \<and> fst (addItem (initial_state\<lparr>newItem := \<lparr>name = utf16 ''Tea'', price = utf16 ''abc''\<rparr>\<rparr>) 0 Rejected) =
       initial_state\<lparr>newItem := \<lparr>name = utf16 ''Tea'', price = utf16 ''abc''\<rparr>,
                     error := Some (utf16 ''Failed to add item. Please try again.'')\<rparr>"
proof -
  let ?s = "initial_state\<lparr>newItem := \<lparr>name = utf16 ''Tea'', price = utf16 ''abc''\<rparr>\<rparr>"
  have t: "trim (utf16 ''Tea'') \<noteq> []"
    by (simp add: trim_Tea) (simp add: utf16_def)
  have p: "utf16 ''abc'' \<noteq> []"
    by (simp add: utf16_def)
  have h: "snd (addItem ?s 0 Rejected) \<noteq> []"
    using t p by (simp add: addItem_def Let_def)
  from addItem_write_fails [OF h] h show ?thesis
    by simp
qed

subsection \<open>C6: what a written item and a listed item satisfy\<close>

text \<open>
  C6, as the page has it.  Every item the add operation writes has a non-empty name and a
  numeric price \<open>\<ge> 0\<close>, enforced at creation time by the validation of the add operation,
  which is the number field with its minimum 0 and the two checks of \<open>addItem\<close>: in every
  state of the page, a record that submitting the form writes goes to the collection
  "items", has the trimmed name of the draft, which is not empty, and as price the Number
  of the draft's price, which is \<open>\<ge> 0\<close> when the draft's price is one that converts to a
  number by HTML's rules, as every value of the field within the binary64 range does.
  The items of the list are the documents of the last snapshot, in their order, each with
  its price passed through \<open>Number\<close>, and the listener checks nothing: a listed item has a
  non-empty name when its document has one, and a price \<open>\<ge> 0\<close> when its document holds a
  Number \<open>\<ge> 0\<close> as price.
\<close>

theorem written_and_listed_items:
  "(reachable s \<and> addDoc c d \<in> set (snd (onSubmit other_flags s now result)) \<longrightarrow>
      c = utf16 ''items''
      \<and> doc_name d = trim (name (newItem s)) \<and> doc_name d \<noteq> []
      \<and> doc_price d = StringToNumber (price (newItem s))
      \<and> (convert_to_number (price (newItem s)) \<noteq> None
            \<longrightarrow> spec_price_ok (doc_price d)))
   \<and> items (receive_snapshot docs s') =
       map (\<lambda>doc. \<lparr>item_id = doc_id doc,
                     item_price = Number (property (doc_data doc) (utf16 ''price'')),
                     item_data = doc_data doc\<rparr>) docs
   \<and> (\<forall>it \<in> set (items (receive_snapshot docs s')).
        \<exists>doc \<in> set docs.
          item_id it = doc_id doc \<and> item_data it = doc_data doc
          \<and> item_price it = Number (property (doc_data doc) (utf16 ''price''))
          \<and> (spec_name_ok (property (doc_data doc) (utf16 ''name''))
               \<longrightarrow> spec_name_ok (property (item_data it) (utf16 ''name'')))
          \<and> (\<forall>p. property (doc_data doc) (utf16 ''price'') = Primitive (JNumber p)
                    \<and> spec_price_ok p
               \<longrightarrow> item_price it = p \<and> spec_price_ok (item_price it)))"
proof -
  have written: "c = utf16 ''items''
      \<and> doc_name d = trim (name (newItem s)) \<and> doc_name d \<noteq> []
      \<and> doc_price d = StringToNumber (price (newItem s))
      \<and> (convert_to_number (price (newItem s)) \<noteq> None
            \<longrightarrow> spec_price_ok (doc_price d))"
    if r: "reachable s" and w: "addDoc c d \<in> set (snd (onSubmit other_flags s now result))"
  proof -
    from w have u: "\<not> rangeUnderflow (price (newItem s))"
      and a: "addDoc c d \<in> set (snd (addItem s now result))"
      by (auto simp: onSubmit_def split: if_splits)
    note call = addItem_call [OF a]
    from call reachable_price [OF r] have "valid_floating_point_number (price (newItem s))"
      by blast
    from valid_price_ok [OF this u] call show ?thesis
      by auto
  qed
  have listed: "\<exists>doc \<in> set docs.
          item_id it = doc_id doc \<and> item_data it = doc_data doc
          \<and> item_price it = Number (property (doc_data doc) (utf16 ''price''))
          \<and> (spec_name_ok (property (doc_data doc) (utf16 ''name''))
               \<longrightarrow> spec_name_ok (property (item_data it) (utf16 ''name'')))
          \<and> (\<forall>p. property (doc_data doc) (utf16 ''price'') = Primitive (JNumber p)
                    \<and> spec_price_ok p
               \<longrightarrow> item_price it = p \<and> spec_price_ok (item_price it))"
    if "it \<in> set (items (receive_snapshot docs s'))" for it
  proof -
    from that obtain doc where "doc \<in> set docs"
      and "it = \<lparr>item_id = doc_id doc,
                  item_price = Number (property (doc_data doc) (utf16 ''price'')),
                  item_data = doc_data doc\<rparr>"
      by (auto simp: items_receive_snapshot)
    then show ?thesis
      by (intro bexI [of _ doc]) (auto simp: Number_def ToNumber_def)
  qed
  from written listed items_receive_snapshot [of docs s'] show ?thesis
    by blast
qed

text \<open>
  C6, as the page has it, at the state reached by typing the name "Tea" and the price
  "3.5": submitting writes the record with name "Tea" and price \<open>3.5\<close>; and a snapshot with
  that document lists an item with the name "Tea" and the price \<open>3.5\<close>.
\<close>

theorem written_and_listed_items_witness:
  "reachable (onChange_price (value_sanitization (utf16 ''3.5''))
                (onChange_name (utf16 ''Tea'') initial_state))
   \<and> snd (onSubmit False
            (onChange_price (value_sanitization (utf16 ''3.5''))
               (onChange_name (utf16 ''Tea'') initial_state)) 0 Resolved)
       = [addDoc (utf16 ''items'')
            \<lparr>doc_name = utf16 ''Tea'', doc_price = Fin (7 / 2), createdAt = 0\<rparr>]
   \<and> utf16 ''Tea'' \<noteq> []
   \<and> convert_to_number (utf16 ''3.5'') = Some (Fin (7 / 2))
   \<and> spec_price_ok (Fin (7 / 2))
   \<and> items (receive_snapshot
        [\<lparr>doc_id = utf16 ''a1'',
          doc_data = [utf16 ''name'' \<mapsto> Primitive (JString (utf16 ''Tea'')),
                      utf16 ''price'' \<mapsto> Primitive (JNumber (Fin (7 / 2)))]\<rparr>]
        initial_state)
       = [\<lparr>item_id = utf16 ''a1'', item_price = Fin (7 / 2),
           item_data = [utf16 ''name'' \<mapsto> Primitive (JString (utf16 ''Tea'')),
                        utf16 ''price'' \<mapsto> Primitive (JNumber (Fin (7 / 2)))]\<rparr>]
   \<and> spec_name_ok (property [utf16 ''name'' \<mapsto> Primitive (JString (utf16 ''Tea'')),
                              utf16 ''price'' \<mapsto> Primitive (JNumber (Fin (7 / 2)))]
                      (utf16 ''name''))
   \<and> property [utf16 ''name'' \<mapsto> Primitive (JString (utf16 ''Tea'')),
               utf16 ''price'' \<mapsto> Primitive (JNumber (Fin (7 / 2)))] (utf16 ''price'')
       = Primitive (JNumber (Fin (7 / 2)))"
proof -
  let ?s = "onChange_price (value_sanitization (utf16 ''3.5''))
              (onChange_name (utf16 ''Tea'') initial_state)"
  let ?d = "\<lparr>doc_name = utf16 ''Tea'', doc_price = Fin (7 / 2), createdAt = 0\<rparr>"
  let ?data = "[utf16 ''name'' \<mapsto> Primitive (JString (utf16 ''Tea'')),
                utf16 ''price'' \<mapsto> Primitive (JNumber (Fin (7 / 2)))]"
  let ?docs = "[\<lparr>doc_id = utf16 ''a1'', doc_data = ?data\<rparr>]"
  let ?it = "\<lparr>item_id = utf16 ''a1'', item_price = Fin (7 / 2), item_data = ?data\<rparr>"
  have r: "reachable ?s"
    by (intro reachable.intros)
  have s: "?s = initial_state\<lparr>newItem := \<lparr>name = utf16 ''Tea'', price = utf16 ''3.5''\<rparr>\<rparr>"
    using valid_3_5
    by (simp add: onChange_price_def onChange_name_def value_sanitization_def initial_state_def)
  have t: "trim (utf16 ''Tea'') \<noteq> []" and t': "utf16 ''Tea'' \<noteq> []"
    and p: "utf16 ''3.5'' \<noteq> []"
    by (simp_all add: trim_Tea) (simp_all add: utf16_def)
  have w: "snd (onSubmit False ?s 0 Resolved) = [addDoc (utf16 ''items'') ?d]"
    unfolding s using t p rangeUnderflow_3_5
    by (simp add: onSubmit_def addItem_def Let_def Number_string StringToNumber_3_5 trim_Tea)
  then have "addDoc (utf16 ''items'') ?d \<in> set (snd (onSubmit False ?s 0 Resolved))"
    by simp
  moreover have "convert_to_number (price (newItem ?s)) \<noteq> None"
    unfolding s by (simp add: convert_to_number_3_5)
  moreover note written_and_listed_items
    [of ?s "utf16 ''items''" ?d False 0 Resolved ?docs initial_state] r
  ultimately have ok: "spec_price_ok (doc_price ?d)"
    and its: "items (receive_snapshot ?docs initial_state) =
       map (\<lambda>doc. \<lparr>item_id = doc_id doc,
                     item_price = Number (property (doc_data doc) (utf16 ''price'')),
                     item_data = doc_data doc\<rparr>) ?docs"
    and all: "\<forall>it \<in> set (items (receive_snapshot ?docs initial_state)).
        \<exists>doc \<in> set ?docs.
          item_id it = doc_id doc \<and> item_data it = doc_data doc
          \<and> item_price it = Number (property (doc_data doc) (utf16 ''price''))
          \<and> (spec_name_ok (property (doc_data doc) (utf16 ''name''))
               \<longrightarrow> spec_name_ok (property (item_data it) (utf16 ''name'')))
          \<and> (\<forall>p. property (doc_data doc) (utf16 ''price'') = Primitive (JNumber p)
                    \<and> spec_price_ok p
               \<longrightarrow> item_price it = p \<and> spec_price_ok (item_price it))"
    by blast+
  have ne: "utf16 ''name'' \<noteq> utf16 ''price''"
    by (simp add: utf16_def)
  have pr: "property ?data (utf16 ''price'') = Primitive (JNumber (Fin (7 / 2)))"
    by (simp add: property_def)
  have nm: "property ?data (utf16 ''name'') = Primitive (JString (utf16 ''Tea''))"
    using ne by (simp add: property_def)
  have its': "items (receive_snapshot ?docs initial_state) = [?it]"
    unfolding its using pr by (simp add: Number_def ToNumber_def)
  have dn: "spec_name_ok (property ?data (utf16 ''name''))"
    unfolding nm using t' by (simp add: spec_name_ok_def)
  from all have "\<forall>it \<in> set [?it].
        \<exists>doc \<in> set ?docs.
          item_id it = doc_id doc \<and> item_data it = doc_data doc
          \<and> item_price it = Number (property (doc_data doc) (utf16 ''price''))
          \<and> (spec_name_ok (property (doc_data doc) (utf16 ''name''))
               \<longrightarrow> spec_name_ok (property (item_data it) (utf16 ''name'')))
          \<and> (\<forall>p. property (doc_data doc) (utf16 ''price'') = Primitive (JNumber p)
                    \<and> spec_price_ok p
               \<longrightarrow> item_price it = p \<and> spec_price_ok (item_price it))"
    unfolding its' .
  then have "spec_name_ok (property ?data (utf16 ''name''))
               \<longrightarrow> spec_name_ok (property (item_data ?it) (utf16 ''name''))"
    and "property ?data (utf16 ''price'') = Primitive (JNumber (Fin (7 / 2)))
           \<and> spec_price_ok (Fin (7 / 2))
         \<longrightarrow> item_price ?it = Fin (7 / 2) \<and> spec_price_ok (item_price ?it)"
    by simp_all
  with dn pr ok have "spec_name_ok (property (item_data ?it) (utf16 ''name''))"
    and "spec_price_ok (item_price ?it)"
    by simp_all
  then show ?thesis
    using r w t' ok its' pr convert_to_number_3_5 by simp
qed

text \<open>
  C6 as stated fails: the listener lists whatever the store holds.  A snapshot with a
  document whose name is the empty string and whose price is \<open>-5\<close> gives a state of the
  page whose list has an item with the empty name and the price \<open>-5\<close>.  And where the
  browser goes by the rules of HTML as written, the minimum does not hold back a negative
  price beyond the binary64 range: with the name "Tea" and the price "-1e309" typed,
  submitting writes the price \<open>-Infinity\<close>.
\<close>

theorem snapshot_unchecked_item_counterexample:
  "reachable (receive_snapshot
        [\<lparr>doc_id = utf16 ''a1'',
          doc_data = [utf16 ''name'' \<mapsto> Primitive (JString []),
                      utf16 ''price'' \<mapsto> Primitive (JNumber (Fin (- 5)))]\<rparr>]
        initial_state)
   \<and> items (receive_snapshot
        [\<lparr>doc_id = utf16 ''a1'',
          doc_data = [utf16 ''name'' \<mapsto> Primitive (JString []),
                      utf16 ''price'' \<mapsto> Primitive (JNumber (Fin (- 5)))]\<rparr>]
        initial_state)
       = [\<lparr>item_id = utf16 ''a1'', item_price = Fin (- 5),
           item_data = [utf16 ''name'' \<mapsto> Primitive (JString []),
                        utf16 ''price'' \<mapsto> Primitive (JNumber (Fin (- 5)))]\<rparr>]
   \<and> property [utf16 ''name'' \<mapsto> Primitive (JString []),
               utf16 ''price'' \<mapsto> Primitive (JNumber (Fin (- 5)))] (utf16 ''name'')
       = Primitive (JString [])
   \<and> \<not> spec_name_ok (Primitive (JString []))
   \<and> \<not> spec_price_ok (Fin (- 5))
   \<and> reachable (onChange_price (value_sanitization (utf16 ''-1e309''))
                  (onChange_name (utf16 ''Tea'') initial_state))
   \<and> snd (onSubmit False
            (onChange_price (value_sanitization (utf16 ''-1e309''))
               (onChange_name (utf16 ''Tea'') initial_state)) 0 Resolved)
       = [addDoc (utf16 ''items'')
            \<lparr>doc_name = utf16 ''Tea'', doc_price = NegInf, createdAt = 0\<rparr>]
   \<and> \<not> spec_price_ok NegInf"
proof -
  have ne: "utf16 ''name'' \<noteq> utf16 ''price''"
    by (simp add: utf16_def)
  have "reachable (receive_snapshot
        [\<lparr>doc_id = utf16 ''a1'',
          doc_data = [utf16 ''name'' \<mapsto> Primitive (JString []),
                      utf16 ''price'' \<mapsto> Primitive (JNumber (Fin (- 5)))]\<rparr>]
        initial_state)"
    by (intro reachable.intros)
  moreover have "\<not> spec_price_ok NegInf"
    by (simp add: spec_price_ok_def)
  ultimately show ?thesis
    using ne onSubmit_beyond_range [of 0]
    by (simp add: items_receive_snapshot property_def Number_def ToNumber_def
        spec_name_ok_def spec_price_ok_def)
qed

subsection \<open>C7: the rounding of the total\<close>

text \<open>
  C7, as the page has it.  For every item list whose sum \<open>S\<close>, as the page computes it, is
  finite and of magnitude below \<open>10 ^ 21\<close>, the total is \<open>toFixed(2)\<close> of the binary64
  value \<open>S\<close>: with \<open>n\<close> the integer of hundredths nearest to the magnitude of the exact
  value of \<open>S\<close>, the larger one of two that are equally near, the total is a minus sign
  when \<open>S\<close> is below 0, then \<open>n / 100\<close> printed with two decimal places.  So a sum exactly
  half way goes away from zero, which is up for a sum not below 0.  In the list of the
  scenario the price \<open>1.005\<close> is the Number nearest to 1.005, the sum is
  \<open>3383329220062085 / 2 ^ 50\<close>, which lies below 3.005, and the total is \<open>3.00\<close>.
\<close>

theorem total_rounding:
  "(is_finite (newTotal L) \<and> \<bar>mathematical_value (newTotal L)\<bar> < 10 ^ 21 \<longrightarrow>
      (let v = mathematical_value (newTotal L);
           n = nat \<lfloor>\<bar>v\<bar> * 100 + 1 / 2\<rfloor>
       in total (total_effect (s\<lparr>items := L\<rparr>)) =
            JString ((if v < 0 then utf16 ''-'' else [])
                     @ decimal (n div 100) @ utf16 ''.''
                     @ [digit_char (n div 10 mod 10), digit_char (n mod 10)])
          \<and> (\<forall>m :: int. \<bar>of_nat n / 100 - \<bar>v\<bar>\<bar> \<le> \<bar>of_int m / 100 - \<bar>v\<bar>\<bar>)
          \<and> (\<forall>m :: int. \<bar>of_int m / 100 - \<bar>v\<bar>\<bar> = \<bar>of_nat n / 100 - \<bar>v\<bar>\<bar>
                 \<longrightarrow> m \<le> int n)))
   \<and> newTotal
        [\<lparr>item_id = utf16 ''1'', item_price = number_of (1005 / 1000),
          item_data = [utf16 ''name'' \<mapsto> Primitive (JString (utf16 ''A''))]\<rparr>,
         \<lparr>item_id = utf16 ''2'', item_price = Fin 2,
          item_data = [utf16 ''name'' \<mapsto> Primitive (JString (utf16 ''B''))]\<rparr>]
       = Fin (3383329220062085 / 1125899906842624)
   \<and> (3383329220062085 / 1125899906842624 :: rat) < 3005 / 1000
   \<and> total (total_effect
        (initial_state\<lparr>items :=
           [\<lparr>item_id = utf16 ''1'', item_price = number_of (1005 / 1000),
             item_data = [utf16 ''name'' \<mapsto> Primitive (JString (utf16 ''A''))]\<rparr>,
            \<lparr>item_id = utf16 ''2'', item_price = Fin 2,
             item_data = [utf16 ''name'' \<mapsto> Primitive (JString (utf16 ''B''))]\<rparr>]\<rparr>))
       = JString (utf16 ''3.00'')"
proof -
  have gen: "total (total_effect (s\<lparr>items := L\<rparr>)) =
               JString (spec_two_decimals (mathematical_value (newTotal L)))"
    if "is_finite (newTotal L)" "\<bar>mathematical_value (newTotal L)\<bar> < 10 ^ 21"
    using toFixed_two_decimals [OF that] by (simp add: total_effect_def)
  have tot: "total (total_effect
        (initial_state\<lparr>items :=
           [\<lparr>item_id = utf16 ''1'', item_price = number_of (1005 / 1000),
             item_data = [utf16 ''name'' \<mapsto> Primitive (JString (utf16 ''A''))]\<rparr>,
            \<lparr>item_id = utf16 ''2'', item_price = Fin 2,
             item_data = [utf16 ''name'' \<mapsto> Primitive (JString (utf16 ''B''))]\<rparr>]\<rparr>))
       = JString (utf16 ''3.00'')"
    using newTotal_scenario toFixed_scenario by (simp add: total_effect_def)
  have lt: "(3383329220062085 / 1125899906842624 :: rat) < 3005 / 1000"
    by simp
  have near: "\<bar>of_nat (nat \<lfloor>\<bar>v\<bar> * 100 + 1 / 2\<rfloor>) / 100 - \<bar>v\<bar>\<bar> \<le> \<bar>of_int m / 100 - \<bar>v\<bar>\<bar>"
    for v :: rat and m :: int
    by (rule half_up_nearest(1)) simp
  have tie: "m \<le> int (nat \<lfloor>\<bar>v\<bar> * 100 + 1 / 2\<rfloor>)"
    if "\<bar>of_int m / 100 - \<bar>v\<bar>\<bar> = \<bar>of_nat (nat \<lfloor>\<bar>v\<bar> * 100 + 1 / 2\<rfloor>) / 100 - \<bar>v\<bar>\<bar>"
    for v :: rat and m :: int
    using _ that by (rule half_up_nearest(2)) simp
  show ?thesis
    using gen near tie tot lt newTotal_scenario
    by (simp add: Let_def spec_two_decimals_def)
qed

text \<open>
  C7, as the page has it, at the prices \<open>0.125\<close> and \<open>-0.125\<close>, Numbers that lie exactly
  between two hundredths: the totals are \<open>0.13\<close> and \<open>-0.13\<close>, and 12 hundredths are as
  near to the magnitude as 13.
\<close>

theorem total_rounding_witness:
  "is_finite (newTotal [\<lparr>item_id = utf16 ''t1'', item_price = Fin (1 / 8), item_data = Map.empty\<rparr>])
   \<and> \<bar>mathematical_value
        (newTotal [\<lparr>item_id = utf16 ''t1'', item_price = Fin (1 / 8), item_data = Map.empty\<rparr>])\<bar>
       < 10 ^ 21
   \<and> total (total_effect (initial_state\<lparr>items :=
        [\<lparr>item_id = utf16 ''t1'', item_price = Fin (1 / 8), item_data = Map.empty\<rparr>]\<rparr>))
       = JString (utf16 ''0.13'')
   \<and> is_finite (newTotal [\<lparr>item_id = utf16 ''t2'', item_price = Fin (- (1 / 8)),
                            item_data = Map.empty\<rparr>])
   \<and> \<bar>mathematical_value
        (newTotal [\<lparr>item_id = utf16 ''t2'', item_price = Fin (- (1 / 8)), item_data = Map.empty\<rparr>])\<bar>
       < 10 ^ 21
   \<and> total (total_effect (initial_state\<lparr>items :=
        [\<lparr>item_id = utf16 ''t2'', item_price = Fin (- (1 / 8)), item_data = Map.empty\<rparr>]\<rparr>))
       = JString (utf16 ''-0.13'')
   \<and> nat \<lfloor>\<bar>1 / 8 :: rat\<bar> * 100 + 1 / 2\<rfloor> = 13
   \<and> \<bar>of_int 12 / 100 - \<bar>1 / 8 :: rat\<bar>\<bar> = \<bar>of_nat 13 / 100 - \<bar>1 / 8 :: rat\<bar>\<bar>
   \<and> (12 :: int) \<le> int 13"
proof -
  let ?P = "[\<lparr>item_id = utf16 ''t1'', item_price = Fin (1 / 8), item_data = Map.empty\<rparr>]"
  let ?N = "[\<lparr>item_id = utf16 ''t2'', item_price = Fin (- (1 / 8)), item_data = Map.empty\<rparr>]"
  have hp: "is_finite (newTotal ?P) \<and> \<bar>mathematical_value (newTotal ?P)\<bar> < 10 ^ 21"
    unfolding newTotal_1_8 by (simp add: is_finite_def mathematical_value_def)
  have hn: "is_finite (newTotal ?N) \<and> \<bar>mathematical_value (newTotal ?N)\<bar> < 10 ^ 21"
    unfolding newTotal_minus_1_8 by (simp add: is_finite_def mathematical_value_def)
  have n13: "nat \<lfloor>\<bar>1 / 8 :: rat\<bar> * 100 + 1 / 2\<rfloor> = 13"
    by simp
  from total_rounding [of ?P initial_state] hp
  have "total (total_effect (initial_state\<lparr>items := ?P\<rparr>)) =
          JString ((if mathematical_value (newTotal ?P) < 0 then utf16 ''-'' else [])
            @ decimal (nat \<lfloor>\<bar>mathematical_value (newTotal ?P)\<bar> * 100 + 1 / 2\<rfloor> div 100)
            @ utf16 ''.''
            @ [digit_char (nat \<lfloor>\<bar>mathematical_value (newTotal ?P)\<bar> * 100 + 1 / 2\<rfloor> div 10 mod 10),
               digit_char (nat \<lfloor>\<bar>mathematical_value (newTotal ?P)\<bar> * 100 + 1 / 2\<rfloor> mod 10)])"
    and tie: "\<forall>m :: int. \<bar>of_int m / 100 - \<bar>mathematical_value (newTotal ?P)\<bar>\<bar> =
          \<bar>of_nat (nat \<lfloor>\<bar>mathematical_value (newTotal ?P)\<bar> * 100 + 1 / 2\<rfloor>) / 100
            - \<bar>mathematical_value (newTotal ?P)\<bar>\<bar>
          \<longrightarrow> m \<le> int (nat \<lfloor>\<bar>mathematical_value (newTotal ?P)\<bar> * 100 + 1 / 2\<rfloor>)"
    by (simp_all only: Let_def) blast+
  then have tp: "total (total_effect (initial_state\<lparr>items := ?P\<rparr>)) = JString (utf16 ''0.13'')"
    and tie': "\<bar>of_int 12 / 100 - \<bar>1 / 8 :: rat\<bar>\<bar> = \<bar>of_nat 13 / 100 - \<bar>1 / 8 :: rat\<bar>\<bar>
               \<longrightarrow> (12 :: int) \<le> int 13"
    unfolding newTotal_1_8
    by (simp_all add: mathematical_value_def decimal_small digit_char_def utf16_def)
  from total_rounding [of ?N initial_state] hn
  have "total (total_effect (initial_state\<lparr>items := ?N\<rparr>)) =
          JString ((if mathematical_value (newTotal ?N) < 0 then utf16 ''-'' else [])
            @ decimal (nat \<lfloor>\<bar>mathematical_value (newTotal ?N)\<bar> * 100 + 1 / 2\<rfloor> div 100)
            @ utf16 ''.''
            @ [digit_char (nat \<lfloor>\<bar>mathematical_value (newTotal ?N)\<bar> * 100 + 1 / 2\<rfloor> div 10 mod 10),
               digit_char (nat \<lfloor>\<bar>mathematical_value (newTotal ?N)\<bar> * 100 + 1 / 2\<rfloor> mod 10)])"
    by (simp only: Let_def)
  then have tn: "total (total_effect (initial_state\<lparr>items := ?N\<rparr>)) = JString (utf16 ''-0.13'')"
    unfolding newTotal_minus_1_8
    by (simp add: mathematical_value_def decimal_small digit_char_def utf16_def)
  have eq: "\<bar>of_int 12 / 100 - \<bar>1 / 8 :: rat\<bar>\<bar> = \<bar>of_nat 13 / 100 - \<bar>1 / 8 :: rat\<bar>\<bar>"
    by simp
  with tie' have "(12 :: int) \<le> int 13" by blast
  with hp hn tp tn n13 eq show ?thesis
    by blast
qed

text \<open>
  C7 as stated fails.  For the items \<open>[{name: "A", price: 1.005}, {name: "B", price: 2}]\<close>
  the total is not \<open>3.01\<close>.  And the policy is not half-up for a sum below 0: for the
  price \<open>-0.125\<close>, which half-up takes to \<open>-12\<close> hundredths, the total is \<open>-0.13\<close>.
\<close>

theorem total_scenario_counterexample:
  "total (total_effect
     (initial_state\<lparr>items :=
        [\<lparr>item_id = utf16 ''1'', item_price = number_of (1005 / 1000),
          item_data = [utf16 ''name'' \<mapsto> Primitive (JString (utf16 ''A''))]\<rparr>,
         \<lparr>item_id = utf16 ''2'', item_price = Fin 2,
          item_data = [utf16 ''name'' \<mapsto> Primitive (JString (utf16 ''B''))]\<rparr>]\<rparr>))
     \<noteq> JString (utf16 ''3.01'')
   \<and> \<lfloor>- (1 / 8) * 100 + 1 / 2 :: rat\<rfloor> = - 12
   \<and> is_binary64 (Fin (- (1 / 8)))
   \<and> total (total_effect (initial_state\<lparr>items :=
        [\<lparr>item_id = utf16 ''t2'', item_price = Fin (- (1 / 8)), item_data = Map.empty\<rparr>]\<rparr>))
       = JString (utf16 ''-0.13'')
   \<and> utf16 ''-0.13'' \<noteq> utf16 ''-0.12''"
proof -
  have sc: "total (total_effect
     (initial_state\<lparr>items :=
        [\<lparr>item_id = utf16 ''1'', item_price = number_of (1005 / 1000),
          item_data = [utf16 ''name'' \<mapsto> Primitive (JString (utf16 ''A''))]\<rparr>,
         \<lparr>item_id = utf16 ''2'', item_price = Fin 2,
          item_data = [utf16 ''name'' \<mapsto> Primitive (JString (utf16 ''B''))]\<rparr>]\<rparr>))
     \<noteq> JString (utf16 ''3.01'')"
    using newTotal_scenario toFixed_scenario
    by (simp add: total_effect_def) (simp add: utf16_def)
  have fl: "\<lfloor>- (1 / 8) * 100 + 1 / 2 :: rat\<rfloor> = - 12"
    by simp
  have b: "is_binary64 (Fin (- (1 / 8)))"
    using is_double_1_8 by (simp add: is_binary64_def is_double_minus)
  have "toFixed (Fin (- (1 / 8))) 2 = utf16 ''-0.13''"
    using toFixed_two_decimals [of "Fin (- (1 / 8))"]
    by (simp add: is_finite_def mathematical_value_def spec_two_decimals_def decimal_small
        digit_char_def utf16_def)
  then have tn: "total (total_effect (initial_state\<lparr>items :=
        [\<lparr>item_id = utf16 ''t2'', item_price = Fin (- (1 / 8)), item_data = Map.empty\<rparr>]\<rparr>))
       = JString (utf16 ''-0.13'')"
    using newTotal_minus_1_8 by (simp add: total_effect_def)
  have d: "utf16 ''-0.13'' \<noteq> utf16 ''-0.12''"
    by (simp add: utf16_def)
  show ?thesis
    using sc fl b tn d by blast
qed

subsection \<open>C8: the same snapshot twice\<close>

text \<open>
  C8.  Receiving a snapshot a second time leaves the state as the first time left it,
  and the items and the total after a snapshot depend on the snapshot alone, not on the
  state before.
\<close>

theorem receive_snapshot_idempotent:
  "receive_snapshot docs (receive_snapshot docs s) = receive_snapshot docs s
   \<and> items (receive_snapshot docs s) = items (receive_snapshot docs s')
   \<and> total (receive_snapshot docs s) = total (receive_snapshot docs s')"
  by (simp add: receive_snapshot_def onSnapshot_callback_def total_effect_def)

subsection \<open>C9: a declined delete\<close>

text \<open>
  C9.  For every item identifier, when the user declines the confirmation, \<open>deleteItem\<close>
  issues no store call and returns the state it was given: items, draft, total and error
  are unchanged.
\<close>

theorem deleteItem_declined:
  "deleteItem s ident False result = (s, [])"
  by (simp add: deleteItem_def)

subsection \<open>C10: a price that is not a number\<close>

text \<open>
  C10.  When a document of a snapshot has a price that \<open>Number\<close> converts to \<open>NaN\<close>, the
  item built from it has the price \<open>NaN\<close>, the sum over the items is \<open>NaN\<close>, the total
  is the string \<open>NaN\<close>, and the total row shows it.
\<close>

theorem snapshot_NaN_price:
  "doc \<in> set docs \<Longrightarrow> Number (property (doc_data doc) (utf16 ''price'')) = NaN \<Longrightarrow>
     (\<exists>it \<in> set (items (receive_snapshot docs s)).
        item_id it = doc_id doc \<and> item_data it = doc_data doc \<and> item_price it = NaN)
     \<and> newTotal (items (receive_snapshot docs s)) = NaN
     \<and> total (receive_snapshot docs s) = JString (utf16 ''NaN'')
     \<and> total_row (receive_snapshot docs s) = Some (JString (utf16 ''NaN''))"
proof -
  assume d: "doc \<in> set docs" and n: "Number (property (doc_data doc) (utf16 ''price'')) = NaN"
  let ?f = "\<lambda>doc. \<lparr>item_id = doc_id doc,
                     item_price = Number (property (doc_data doc) (utf16 ''price'')),
                     item_data = doc_data doc\<rparr>"
  have its: "items (receive_snapshot docs s) = map ?f docs"
    by (simp add: receive_snapshot_def onSnapshot_callback_def total_effect_def)
  have mem: "?f doc \<in> set (map ?f docs)"
    using d by (rule imageI [of doc "set docs" ?f, simplified set_map [symmetric]])
  have ex: "\<exists>it \<in> set (map ?f docs).
              item_id it = doc_id doc \<and> item_data it = doc_data doc \<and> item_price it = NaN"
    using mem n by (intro bexI [of _ "?f doc"]) simp_all
  then have "\<exists>it \<in> set (map ?f docs). item_price it = NaN"
    by blast
  then have sum: "newTotal (map ?f docs) = NaN"
    unfolding newTotal_def by (rule foldl_add_has_NaN)
  have tot: "total (receive_snapshot docs s) = JString (utf16 ''NaN'')"
    using sum
    by (simp add: receive_snapshot_def onSnapshot_callback_def total_effect_def toFixed_NaN)
  have "docs \<noteq> []" using d by auto
  then have row: "total_row (receive_snapshot docs s) = Some (total (receive_snapshot docs s))"
    by (simp add: total_row_def its)
  show ?thesis
    using ex sum tot row by (simp add: its)
qed

text \<open>C10 at a snapshot of one document, with name "Tea" and the price string "abc".\<close>

theorem snapshot_NaN_price_witness:
  "\<lparr>doc_id = utf16 ''a1'',
     doc_data = [utf16 ''name'' \<mapsto> Primitive (JString (utf16 ''Tea'')),
                 utf16 ''price'' \<mapsto> Primitive (JString (utf16 ''abc''))]\<rparr>
     \<in> set [\<lparr>doc_id = utf16 ''a1'',
              doc_data = [utf16 ''name'' \<mapsto> Primitive (JString (utf16 ''Tea'')),
                          utf16 ''price'' \<mapsto> Primitive (JString (utf16 ''abc''))]\<rparr>]
   \<and> Number (property [utf16 ''name'' \<mapsto> Primitive (JString (utf16 ''Tea'')),
                        utf16 ''price'' \<mapsto> Primitive (JString (utf16 ''abc''))]
                       (utf16 ''price'')) = NaN
   \<and> total (receive_snapshot
              [\<lparr>doc_id = utf16 ''a1'',
                doc_data = [utf16 ''name'' \<mapsto> Primitive (JString (utf16 ''Tea'')),
                            utf16 ''price'' \<mapsto> Primitive (JString (utf16 ''abc''))]\<rparr>]
              initial_state) = JString (utf16 ''NaN'')"
proof -
  let ?data = "[utf16 ''name'' \<mapsto> Primitive (JString (utf16 ''Tea'')),
                utf16 ''price'' \<mapsto> Primitive (JString (utf16 ''abc''))]"
  let ?doc = "\<lparr>doc_id = utf16 ''a1'', doc_data = ?data\<rparr>"
  have n: "Number (property (doc_data ?doc) (utf16 ''price'')) = NaN"
    by (simp add: property_def Number_string StringToNumber_abc)
  have m: "?doc \<in> set [?doc]"
    by simp
  from snapshot_NaN_price [OF m n, of initial_state] m n show ?thesis
    by simp
qed

end
